theory Spec2Isabelle
  imports Main "HOL-Library.Multiset"
begin

section \<open>Python strings\<close>


definition endswith :: "string \<Rightarrow> string \<Rightarrow> bool" where
  "endswith s p = (length p \<le> length s \<and> drop (length s - length p) s = p)"

text \<open>\<^verbatim>\<open>s.replace(old, new)\<close> for a one-character \<^verbatim>\<open>old\<close>: every occurrence is replaced.\<close>

definition replace :: "string \<Rightarrow> char \<Rightarrow> string \<Rightarrow> string" where
  "replace s old new = concat (map (\<lambda>c. if c = old then new else [c]) s)"







definition digit_char :: "nat \<Rightarrow> char" where
  "digit_char n = char_of (48 + n)"

text \<open>\<^verbatim>\<open>str(n)\<close> for a non-negative integer.\<close>

fun str :: "nat \<Rightarrow> string" where
  "str n = (if n < 10 then [digit_char n] else str (n div 10) @ [digit_char (n mod 10)])"

declare str.simps [simp del]

text \<open>The format \<^verbatim>\<open>%0wd\<close>.\<close>

definition zfill :: "nat \<Rightarrow> nat \<Rightarrow> string" where
  "zfill w n = replicate (w - length (str n)) (CHR ''0'') @ str n"

section \<open>The standard library's datetime\<close>

text \<open>
  A \<^verbatim>\<open>datetime\<close> object: its calendar fields and its \<^verbatim>\<open>tzinfo\<close>, which is
  \<open>None\<close> for a naive value and otherwise the fixed UTC offset in microseconds.
\<close>

record datetime =
  year :: nat
  month :: nat
  day :: nat
  hour :: nat
  minute :: nat
  second :: nat
  microsecond :: nat
  tzinfo :: "int option"

definition is_leap :: "nat \<Rightarrow> bool" where
  "is_leap y = (y mod 4 = 0 \<and> (y mod 100 \<noteq> 0 \<or> y mod 400 = 0))"

definition days_in_month :: "nat \<Rightarrow> nat \<Rightarrow> nat" where
  "days_in_month y m =
     (if m = 2 \<and> is_leap y then 29
      else [0, 31, 28, 31, 30, 31, 30, 31, 31, 30, 31, 30, 31] ! m)"

definition days_before_year :: "nat \<Rightarrow> nat" where
  "days_before_year y = (let z = y - 1 in z * 365 + z div 4 - z div 100 + z div 400)"

definition days_before_month :: "nat \<Rightarrow> nat \<Rightarrow> nat" where
  "days_before_month y m =
     [0, 0, 31, 59, 90, 120, 151, 181, 212, 243, 273, 304, 334] ! m
       + (if 2 < m \<and> is_leap y then 1 else 0)"

definition ymd2ord :: "nat \<Rightarrow> nat \<Rightarrow> nat \<Rightarrow> nat" where
  "ymd2ord y m d = days_before_year y + days_before_month y m + d"

text \<open>\<^verbatim>\<open>dt.weekday()\<close>: Monday is 0, Sunday is 6, computed from the date fields as written.\<close>

definition weekday :: "datetime \<Rightarrow> nat" where
  "weekday dt = (ymd2ord (year dt) (month dt) (day dt) + 6) mod 7"

text \<open>
  The value that ordering comparisons use: microseconds on the proleptic calendar,
  taken at the written fields for a naive value and shifted by the offset for an aware one.
\<close>

definition wall_micros :: "datetime \<Rightarrow> int" where
  "wall_micros dt =
     ((int (ymd2ord (year dt) (month dt) (day dt)) * 24 + int (hour dt)) * 3600
        + int (minute dt) * 60 + int (second dt)) * 1000000 + int (microsecond dt)"

definition utc_micros :: "datetime \<Rightarrow> int" where
  "utc_micros dt = wall_micros dt - (case tzinfo dt of None \<Rightarrow> 0 | Some off \<Rightarrow> off)"

text \<open>The hour and weekday of the instant after conversion to UTC (\<^verbatim>\<open>astimezone(utc)\<close>).\<close>

definition utc_hour :: "datetime \<Rightarrow> nat" where
  "utc_hour dt = nat ((utc_micros dt div 3600000000) mod 24)"

definition utc_weekday :: "datetime \<Rightarrow> nat" where
  "utc_weekday dt = nat ((utc_micros dt div 86400000000 + 6) mod 7)"

subsection \<open>fromisoformat\<close>

text \<open>
  \<^verbatim>\<open>datetime.fromisoformat\<close>, for the documented format
  \<^verbatim>\<open>YYYY-MM-DD[*HH[:MM[:SS[.fff[fff]]]][+HH:MM[:SS[.ffffff]]]]\<close>, where \<^verbatim>\<open>*\<close> is any
  single character. \<open>None\<close> stands for the \<^verbatim>\<open>ValueError\<close> that an invalid string or an
  out-of-range field raises.
\<close>

definition digit_val :: "char \<Rightarrow> nat option" where
  "digit_val c = (let n = (of_char c :: nat) in if 48 \<le> n \<and> n \<le> 57 then Some (n - 48) else None)"

fun parse_digits_acc :: "nat \<Rightarrow> string \<Rightarrow> nat option" where
  "parse_digits_acc acc [] = Some acc"
| "parse_digits_acc acc (c # cs) =
     (case digit_val c of None \<Rightarrow> None | Some v \<Rightarrow> parse_digits_acc (acc * 10 + v) cs)"

definition parse_digits :: "string \<Rightarrow> nat option" where
  "parse_digits s = (if s = [] then None else parse_digits_acc 0 s)"

text \<open>Two parses in sequence: the result exists when neither raised.\<close>

fun both :: "'a option \<Rightarrow> 'b option \<Rightarrow> ('a \<times> 'b) option" where
  "both (Some a) (Some b) = Some (a, b)"
| "both _ _ = None"

definition parse_isoformat_date :: "string \<Rightarrow> (nat \<times> nat \<times> nat) option" where
  "parse_isoformat_date dtstr =
     (if length dtstr = 10 \<and> dtstr ! 4 = CHR ''-'' \<and> dtstr ! 7 = CHR ''-'' then
        both (parse_digits (take 4 dtstr))
          (both (parse_digits (take 2 (drop 5 dtstr))) (parse_digits (drop 8 dtstr)))
      else None)"

text \<open>\<^verbatim>\<open>HH[:MM[:SS[.fff[fff]]]]\<close>\<close>

definition parse_hh_mm_ss_ff :: "string \<Rightarrow> (nat \<times> nat \<times> nat \<times> nat) option" where
  "parse_hh_mm_ss_ff tstr =
     (let n = length tstr in
      if n = 2 then
        both (parse_digits tstr) (Some (0, 0, 0))
      else if n = 5 \<and> tstr ! 2 = CHR '':'' then
        both (parse_digits (take 2 tstr)) (both (parse_digits (drop 3 tstr)) (Some (0, 0)))
      else if n = 8 \<and> tstr ! 2 = CHR '':'' \<and> tstr ! 5 = CHR '':'' then
        both (parse_digits (take 2 tstr))
          (both (parse_digits (take 2 (drop 3 tstr)))
             (both (parse_digits (drop 6 tstr)) (Some 0)))
      else if (n = 12 \<or> n = 15) \<and> tstr ! 2 = CHR '':'' \<and> tstr ! 5 = CHR '':''
                \<and> tstr ! 8 = CHR ''.'' then
        both (parse_digits (take 2 tstr))
          (both (parse_digits (take 2 (drop 3 tstr)))
             (both (parse_digits (take 2 (drop 6 tstr)))
                (map_option (\<lambda>f. if n = 12 then f * 1000 else f)
                   (parse_digits (drop 9 tstr)))))
      else None)"

definition is_sign :: "char \<Rightarrow> bool" where
  "is_sign c = (c = CHR ''+'' \<or> c = CHR ''-'')"

text \<open>
  The zone suffix \<^verbatim>\<open>+HH:MM[:SS[.ffffff]]\<close>: the offset in microseconds; a
  \<^verbatim>\<open>timezone\<close> must lie strictly between minus and plus 24 hours.
\<close>

definition parse_tz :: "char \<Rightarrow> string \<Rightarrow> int option" where
  "parse_tz sign tzstr =
     (if length tzstr \<in> {5, 8, 15} then
        (case parse_hh_mm_ss_ff tzstr of None \<Rightarrow> None
         | Some (h, m, s, f) \<Rightarrow>
             (let off = (int h * 3600 + int m * 60 + int s) * 1000000 + int f
              in if off < 86400000000
                 then Some (if sign = CHR ''-'' then - off else off) else None))
      else None)"

definition parse_isoformat_time :: "string \<Rightarrow> ((nat \<times> nat \<times> nat \<times> nat) \<times> int option) option" where
  "parse_isoformat_time tstr =
     (let timestr = takeWhile (\<lambda>c. \<not> is_sign c) tstr;
          rest = dropWhile (\<lambda>c. \<not> is_sign c) tstr
      in case parse_hh_mm_ss_ff timestr of None \<Rightarrow> None
         | Some comps \<Rightarrow>
             (case rest of [] \<Rightarrow> Some (comps, None)
              | sign # tzstr \<Rightarrow>
                  (case parse_tz sign tzstr of None \<Rightarrow> None
                   | Some off \<Rightarrow> Some (comps, Some off))))"

text \<open>The range checks of the \<^verbatim>\<open>datetime\<close> constructor.\<close>

definition new_datetime :: "nat \<times> nat \<times> nat \<Rightarrow> nat \<times> nat \<times> nat \<times> nat \<Rightarrow> int option \<Rightarrow> datetime option" where
  "new_datetime date time tz =
     (case date of (y, m, d) \<Rightarrow> case time of (hh, mm, ss, us) \<Rightarrow>
        if 1 \<le> y \<and> y \<le> 9999 \<and> 1 \<le> m \<and> m \<le> 12 \<and> 1 \<le> d \<and> d \<le> days_in_month y m
           \<and> hh < 24 \<and> mm < 60 \<and> ss < 60 \<and> us < 1000000
        then Some \<lparr>year = y, month = m, day = d, hour = hh, minute = mm, second = ss,
                   microsecond = us, tzinfo = tz\<rparr>
        else None)"

definition fromisoformat :: "string \<Rightarrow> datetime option" where
  "fromisoformat date_string =
     (case parse_isoformat_date (take 10 date_string) of None \<Rightarrow> None
      | Some date \<Rightarrow>
          if length date_string = 10 then new_datetime date (0, 0, 0, 0) None
          else (case parse_isoformat_time (drop 11 date_string) of None \<Rightarrow> None
                | Some (time, tz) \<Rightarrow> new_datetime date time tz))"

subsection \<open>isoformat\<close>

definition format_offset :: "int \<Rightarrow> string" where
  "format_offset off =
     (let a = \<bar>off\<bar>;
          hh = nat (a div 3600000000);
          mm = nat ((a mod 3600000000) div 60000000);
          ss = nat ((a mod 60000000) div 1000000);
          us = nat (a mod 1000000)
      in (if off < 0 then ''-'' else ''+'') @ zfill 2 hh @ '':'' @ zfill 2 mm
         @ (if ss \<noteq> 0 \<or> us \<noteq> 0 then '':'' @ zfill 2 ss else [])
         @ (if us \<noteq> 0 then ''.'' @ zfill 6 us else []))"

definition isoformat :: "datetime \<Rightarrow> string" where
  "isoformat dt =
     zfill 4 (year dt) @ ''-'' @ zfill 2 (month dt) @ ''-'' @ zfill 2 (day dt) @ ''T''
     @ zfill 2 (hour dt) @ '':'' @ zfill 2 (minute dt) @ '':'' @ zfill 2 (second dt)
     @ (if microsecond dt \<noteq> 0 then ''.'' @ zfill 6 (microsecond dt) else [])
     @ (case tzinfo dt of None \<Rightarrow> [] | Some off \<Rightarrow> format_offset off)"

section \<open>Counters\<close>

text \<open>
  A \<^verbatim>\<open>defaultdict(int)\<close> with integer keys, as the list of its items in insertion
  order (the order in which \<^verbatim>\<open>items()\<close> yields them).
\<close>

type_synonym counter = "(nat \<times> nat) list"

text \<open>The stored value, 0 for a missing key; the counter is left as it is.\<close>

fun dd_get :: "counter \<Rightarrow> nat \<Rightarrow> nat" where
  "dd_get [] k = 0"
| "dd_get ((j, v) # c) k = (if j = k then v else dd_get c k)"

text \<open>Reading \<^verbatim>\<open>c[k]\<close>: a missing key is inserted with 0, after all others.\<close>

fun dd_touch :: "counter \<Rightarrow> nat \<Rightarrow> counter" where
  "dd_touch [] k = [(k, 0)]"
| "dd_touch ((j, v) # c) k = (if j = k then (j, v) # c else (j, v) # dd_touch c k)"

text \<open>\<^verbatim>\<open>c[k] += 1\<close>: a present key keeps its place, a missing one is appended.\<close>

fun dd_incr :: "counter \<Rightarrow> nat \<Rightarrow> counter" where
  "dd_incr [] k = [(k, 1)]"
| "dd_incr ((j, v) # c) k = (if j = k then (j, v + 1) # c else (j, v) # dd_incr c k)"

text \<open>
  The three accumulators of both \<^verbatim>\<open>analyze_scraped_data\<close> and
  \<^verbatim>\<open>generate_demo_data\<close>.
\<close>

record counts =
  hourly :: counter
  daily :: counter
  heatmap :: "nat list list"

definition new_counts :: counts where
  "new_counts = \<lparr>hourly = [], daily = [], heatmap = replicate 7 (replicate 24 0)\<rparr>"

text \<open>
  The statements \<^verbatim>\<open>hourly[hour] += 1; daily[day] += 1; heatmap[day][hour] += 1\<close>
  (\<^verbatim>\<open>scraper.py\<close> 146-148, \<^verbatim>\<open>main.py\<close> 65-67). An index outside the matrix would
  raise after the two counters are updated; the list update leaves the matrix as it is there.
\<close>

definition count_event :: "nat \<Rightarrow> nat \<Rightarrow> counts \<Rightarrow> counts" where
  "count_event h d cs =
     \<lparr>hourly = dd_incr (hourly cs) h,
      daily = dd_incr (daily cs) d,
      heatmap = (heatmap cs)[d := (heatmap cs ! d)[h := heatmap cs ! d ! h + 1]]\<rparr>"

text \<open>
  \<^verbatim>\<open>{str(k): c[k] for k in keys}\<close>: the dictionary built, and the counter after the
  reads, which insert the keys that were missing.
\<close>

fun dict_comp :: "counter \<Rightarrow> nat list \<Rightarrow> (string \<times> nat) list \<times> counter" where
  "dict_comp c [] = ([], c)"
| "dict_comp c (k # ks) =
     (let c1 = dd_touch c k; r = dict_comp c1 ks
      in ((str k, dd_get c1 k) # fst r, snd r))"

text \<open>
  \<^verbatim>\<open>sorted(c.items(), key=lambda x: x[1], reverse=True)\<close>: the list is reversed,
  sorted stably in ascending order of the key, and reversed again.
\<close>

definition sorted_reverse :: "counter \<Rightarrow> counter" where
  "sorted_reverse xs = rev (sort_key snd (rev xs))"

section \<open>scraper.py\<close>

text \<open>
  A tweet is the dictionary \<^verbatim>\<open>{"datetime": s}\<close> that the scraper appends; it is
  identified with the string \<open>s\<close>.
\<close>

type_synonym tweet = string

text \<open>
  The three entries that identify the profile. The profile image is of type \<open>'i\<close>: in what
  the scraper returns it is a string or \<^verbatim>\<open>None\<close>, as \<^verbatim>\<open>get_attribute("src")\<close> yields
  either (line 70); in an \<^verbatim>\<open>ActivityResponse\<close> it is a string.
\<close>

record 'i profile =
  username :: string
  display_name :: string
  profile_image :: 'i

text \<open>The result dictionary of \<^verbatim>\<open>scrape_twitter_activity\<close>.\<close>

record scraped_data = "string option profile" +
  success :: bool
  tweets :: "tweet list"
  error :: "string option"

text \<open>
  The entries that the dictionary of \<^verbatim>\<open>analyze_scraped_data\<close> and the class
  \<^verbatim>\<open>ActivityResponse\<close> of \<^verbatim>\<open>main.py\<close> have in common.
\<close>

record 'i summary = "'i profile" +
  total_tweets_analyzed :: nat
  hourly_activity :: "(string \<times> nat) list"
  daily_activity :: "(string \<times> nat) list"
  heatmap_data :: "nat list list"
  peak_hours :: "(nat \<times> nat) list"
  peak_days :: "(nat \<times> nat) list"
  timezone_note :: string
  is_demo :: bool

text \<open>
  The class \<^verbatim>\<open>ActivityResponse\<close>: every field has passed the validation of its
  declared type, so the profile image is a string.
\<close>

type_synonym ActivityResponse = "string summary"

text \<open>
  The dictionary that \<^verbatim>\<open>analyze_scraped_data\<close> returns; its profile image is the one
  scraped.
\<close>

record analysis = "string option summary" +
  last_tweet_time :: "string option"
  is_scraped :: bool

text \<open>Lines 136-141: the string of one tweet, parsed.\<close>

definition parse_tweet :: "tweet \<Rightarrow> datetime option" where
  "parse_tweet dt_str =
     (if endswith dt_str ''Z'' then fromisoformat (replace dt_str (CHR ''Z'') ''+00:00'')
      else fromisoformat dt_str)"

text \<open>Lines 133-151: the loop over the tweets; an entry that raises is skipped.\<close>

fun tally :: "counts \<Rightarrow> tweet list \<Rightarrow> counts" where
  "tally cs [] = cs"
| "tally cs (tweet # rest) =
     (case parse_tweet tweet of
        None \<Rightarrow> tally cs rest
      | Some dt \<Rightarrow> tally (count_event (hour dt) (weekday dt) cs) rest)"

text \<open>Lines 168-175: the second loop; the first entry that raises ends it.\<close>

fun parse_all :: "tweet list \<Rightarrow> datetime list option" where
  "parse_all [] = Some []"
| "parse_all (tweet # rest) =
     (case parse_tweet tweet of
        None \<Rightarrow> None
      | Some dt \<Rightarrow> map_option ((#) dt) (parse_all rest))"

text \<open>
  \<^verbatim>\<open>a > b\<close> on datetimes: \<open>None\<close> is the \<^verbatim>\<open>TypeError\<close> of comparing a naive
  with an aware value.
\<close>

definition dt_gt :: "datetime \<Rightarrow> datetime \<Rightarrow> bool option" where
  "dt_gt a b =
     (if (tzinfo a = None) \<noteq> (tzinfo b = None) then None
      else Some (utc_micros b < utc_micros a))"

text \<open>\<^verbatim>\<open>max\<close> of a non-empty list: the first of the greatest elements.\<close>

fun max_from :: "datetime \<Rightarrow> datetime list \<Rightarrow> datetime option" where
  "max_from m [] = Some m"
| "max_from m (x # xs) =
     (case dt_gt x m of
        None \<Rightarrow> None
      | Some b \<Rightarrow> max_from (if b then x else m) xs)"

text \<open>Lines 165-179.\<close>

definition find_last_tweet_time :: "tweet list \<Rightarrow> string option" where
  "find_last_tweet_time tws =
     (if tws = [] then None
      else (case parse_all tws of
              None \<Rightarrow> None
            | Some [] \<Rightarrow> None
            | Some (t # ts) \<Rightarrow> map_option isoformat (max_from t ts)))"

definition positive :: "nat \<times> nat \<Rightarrow> bool" where
  "positive p = (0 < snd p)"

definition analyze_scraped_data :: "scraped_data \<Rightarrow> analysis option" where
  "analyze_scraped_data scraped_data =
     (if \<not> success scraped_data \<or> tweets scraped_data = [] then None
      else
        (let cs = tally new_counts (tweets scraped_data);
             hs = dict_comp (hourly cs) [0..<24];
             ds = dict_comp (daily cs) [0..<7];
             sorted_hours = sorted_reverse (snd hs);
             sorted_days = sorted_reverse (snd ds)
         in Some \<lparr>username = username scraped_data,
                   display_name = display_name scraped_data,
                   profile_image = profile_image scraped_data,
                   total_tweets_analyzed = length (tweets scraped_data),
                   hourly_activity = fst hs,
                   daily_activity = fst ds,
                   heatmap_data = heatmap cs,
                   peak_hours = filter positive (take 3 sorted_hours),
                   peak_days = filter positive (take 3 sorted_days),
                   timezone_note = ''Times shown in UTC (scraped)'',
                   is_demo = False,
                   last_tweet_time = find_last_tweet_time (tweets scraped_data),
                   is_scraped = True\<rparr>))"

section \<open>main.py\<close>

subsection \<open>The random source\<close>

text \<open>
  The module \<^verbatim>\<open>random\<close> is the sequence of the raw values it will yield, one per
  call; a call takes the first and leaves the rest.
\<close>

type_synonym rng = "nat \<Rightarrow> nat"

definition rest :: "rng \<Rightarrow> rng" where
  "rest g = (\<lambda>i. g (Suc i))"

text \<open>\<^verbatim>\<open>random.randint(a, b)\<close>: \<open>a\<close> plus a value below \<open>b - a + 1\<close>.\<close>

definition randint :: "nat \<Rightarrow> nat \<Rightarrow> rng \<Rightarrow> nat \<times> rng" where
  "randint a b g = (a + g 0 mod (b - a + 1), rest g)"

fun accumulate :: "nat \<Rightarrow> nat list \<Rightarrow> nat list" where
  "accumulate acc [] = []"
| "accumulate acc (w # ws) = (acc + w) # accumulate (acc + w) ws"

text \<open>
  \<^verbatim>\<open>bisect(a, x, 0, hi)\<close> on an ascending list: the number of elements among the
  first \<open>hi\<close> that are at most \<open>x\<close>.
\<close>

definition bisect :: "nat list \<Rightarrow> nat \<Rightarrow> nat \<Rightarrow> nat" where
  "bisect a x hi = length (takeWhile (\<lambda>c. c \<le> x) (take hi a))"

text \<open>
  \<^verbatim>\<open>random.choices(range(n), weights=weights)[0]\<close> with \<open>n = length weights\<close>: the
  index is \<^verbatim>\<open>bisect(cum_weights, random() * total, 0, n - 1)\<close>. The cumulative weights
  are integers, so only the integer part of \<^verbatim>\<open>random() * total\<close> matters; it is a value
  below \<open>total\<close>.
\<close>

definition choices :: "nat list \<Rightarrow> rng \<Rightarrow> nat \<times> rng" where
  "choices weights g =
     (let cum_weights = accumulate 0 weights;
          total = sum_list weights
      in (bisect cum_weights (g 0 mod total) (length weights - 1), rest g))"

definition hour_weights :: "nat list" where
  "hour_weights = [1, 1, 1, 1, 1, 2, 3, 5, 8, 10, 12, 14,
                   15, 14, 13, 14, 16, 18, 20, 22, 18, 12, 6, 3]"

definition day_weights :: "nat list" where
  "day_weights = [18, 20, 22, 20, 18, 12, 10]"

subsection \<open>generate_demo_data\<close>

text \<open>Lines 57-67: the loop \<^verbatim>\<open>for _ in range(num_tweets)\<close>.\<close>

fun demo_loop :: "nat \<Rightarrow> counts \<Rightarrow> rng \<Rightarrow> counts" where
  "demo_loop 0 cs g = cs"
| "demo_loop (Suc n) cs g =
     (let h = choices hour_weights g;
          d = choices day_weights (snd h)
      in demo_loop n (count_event (fst h) (fst d) cs) (snd d))"

definition generate_demo_data :: "rng \<Rightarrow> string \<Rightarrow> ActivityResponse" where
  "generate_demo_data g username' =
     (let num_tweets = randint 150 300 g;
          cs = demo_loop (fst num_tweets) new_counts (snd num_tweets);
          hs = dict_comp (hourly cs) [0..<24];
          ds = dict_comp (daily cs) [0..<7];
          sorted_hours = sorted_reverse (snd hs);
          sorted_days = sorted_reverse (snd ds)
      in \<lparr>username = username',
          display_name = ''@'' @ username',
          profile_image = [],
          total_tweets_analyzed = fst num_tweets,
          hourly_activity = fst hs,
          daily_activity = fst ds,
          heatmap_data = heatmap cs,
          peak_hours = take 3 sorted_hours,
          peak_days = take 3 sorted_days,
          timezone_note = ''Times shown in UTC (demo mode)'',
          is_demo = True\<rparr>)"

subsection \<open>fetch_via_scraper\<close>






subsection \<open>analyze_user\<close>


section \<open>Notions used to state the properties\<close>

text \<open>The timestamps of the tweets that parse, in input order.\<close>

definition parsed :: "tweet list \<Rightarrow> datetime list" where
  "parsed tws = List.map_filter parse_tweet tws"

text \<open>The (hour, weekday) pair under which the first loop files a timestamp.\<close>

definition buckets :: "datetime list \<Rightarrow> (nat \<times> nat) list" where
  "buckets dts = map (\<lambda>dt. (hour dt, weekday dt)) dts"

text \<open>The three counting statements, run over a list of (hour, day) pairs.\<close>

definition count_events :: "counts \<Rightarrow> (nat \<times> nat) list \<Rightarrow> counts" where
  "count_events cs evs = foldl (\<lambda>cs e. count_event (fst e) (snd e) cs) cs evs"

text \<open>A pair that lies inside the matrix.\<close>

definition in_range :: "nat \<times> nat \<Rightarrow> bool" where
  "in_range e = (fst e < 24 \<and> snd e < 7)"

text \<open>A matrix of 7 rows of 24 cells.\<close>

definition well_shaped :: "nat list list \<Rightarrow> bool" where
  "well_shaped hm = (length hm = 7 \<and> list_all (\<lambda>row. length row = 24) hm)"

text \<open>The (hour, day) pairs that \<open>n\<close> rounds of the demo loop draw.\<close>

fun demo_draws :: "nat \<Rightarrow> rng \<Rightarrow> (nat \<times> nat) list" where
  "demo_draws 0 g = []"
| "demo_draws (Suc n) g =
     (let h = choices hour_weights g;
          d = choices day_weights (snd h)
      in (fst h, fst d) # demo_draws n (snd d))"

text \<open>The pairs of one call of \<^verbatim>\<open>generate_demo_data\<close>: the count is drawn first.\<close>

definition demo_events :: "rng \<Rightarrow> (nat \<times> nat) list" where
  "demo_events g = demo_draws (fst (randint 150 300 g)) (snd (randint 150 300 g))"

text \<open>The keys of the hourly and of the daily map.\<close>

definition hour_keys :: "string list" where
  "hour_keys = [''0'', ''1'', ''2'', ''3'', ''4'', ''5''] @ [''6'', ''7'', ''8'', ''9'', ''10'', ''11'']
     @ [''12'', ''13'', ''14'', ''15'', ''16'', ''17''] @ [''18'', ''19'', ''20'', ''21'', ''22'', ''23'']"

definition day_keys :: "string list" where
  "day_keys = [''0'', ''1'', ''2'', ''3'', ''4'', ''5'', ''6'']"

subsection \<open>The peak rule in the words of the specification\<close>

text \<open>
  "Sort the pairs by count descending, stable on the original order for ties; take the
  first 3 entries whose count is strictly positive."
\<close>

definition sort_by_count_desc :: "(nat \<times> nat) list \<Rightarrow> (nat \<times> nat) list" where
  "sort_by_count_desc xs = sort_key (\<lambda>p. - int (snd p)) xs"

definition top3_positive :: "(nat \<times> nat) list \<Rightarrow> (nat \<times> nat) list" where
  "top3_positive xs = take 3 (filter positive (sort_by_count_desc xs))"

text \<open>
  The (key, count) pairs of the keys below \<open>n\<close> for the list \<open>ks\<close> of keys counted: in
  key order, which is the original order the specification names, and in the order in
  which the counter holds them: the keys counted in the order of their first occurrence,
  then the others in ascending order.
\<close>

definition pairs_in_key_order :: "nat \<Rightarrow> nat list \<Rightarrow> (nat \<times> nat) list" where
  "pairs_in_key_order n ks = map (\<lambda>k. (k, count_list ks k)) [0..<n]"

fun first_seen :: "'a list \<Rightarrow> 'a list" where
  "first_seen [] = []"
| "first_seen (x # xs) = x # first_seen (filter (\<lambda>y. y \<noteq> x) xs)"

definition pairs_in_seen_order :: "nat \<Rightarrow> nat list \<Rightarrow> (nat \<times> nat) list" where
  "pairs_in_seen_order n ks =
     map (\<lambda>k. (k, count_list ks k)) (first_seen ks @ filter (\<lambda>k. k \<notin> set ks) [0..<n])"

subsection \<open>Concrete inputs\<close>

text \<open>A successful scrape of the given tweets, and a failed one with its message.\<close>

definition scraped :: "tweet list \<Rightarrow> scraped_data" where
  "scraped tws = \<lparr>username = ''user'', display_name = ''@user'', profile_image = Some [],
     success = True, tweets = tws, error = None\<rparr>"


text \<open>The example of the specification: an unparseable string between two timestamps.\<close>

definition mixed_input :: scraped_data where
  "mixed_input = scraped [''2024-01-01T09:00:00Z'', ''garbage'', ''2024-01-01T09:30:00Z'']"

text \<open>The two timestamps of \<open>mixed_input\<close> that parse.\<close>

definition nine :: datetime where
  "nine = \<lparr>year = 2024, month = 1, day = 1, hour = 9, minute = 0, second = 0, microsecond = 0,
     tzinfo = Some 0\<rparr>"

definition half_past_nine :: datetime where
  "half_past_nine = \<lparr>year = 2024, month = 1, day = 1, hour = 9, minute = 30, second = 0,
     microsecond = 0, tzinfo = Some 0\<rparr>"


text \<open>Inputs of which no string parses.\<close>

definition unparseable_input :: scraped_data where
  "unparseable_input = scraped [''not-a-date'']"


text \<open>A timestamp written five hours ahead of UTC: 02:00 on a Monday.\<close>

definition offset_input :: scraped_data where
  "offset_input = scraped [''2024-01-01T02:00:00+05:00'']"

definition offset_instant :: datetime where
  "offset_instant = \<lparr>year = 2024, month = 1, day = 1, hour = 2, minute = 0, second = 0,
     microsecond = 0, tzinfo = Some 18000000000\<rparr>"

text \<open>Two hours with one tweet each, the later hour first; and four tweets over three hours.\<close>

definition tie_input :: scraped_data where
  "tie_input = scraped [''2024-01-01T10:00:00Z'', ''2024-01-01T09:30:00Z'']"

definition peaks_input :: scraped_data where
  "peaks_input = scraped [''2024-01-01T12:00:00Z'', ''2024-01-01T11:00:00Z'',
     ''2024-01-02T11:30:00Z'', ''2024-01-03T09:00:00Z'']"

section \<open>Python strings\<close>





lemma replace_absent: "old \<notin> set s \<Longrightarrow> replace s old new = s"
  by (induction s) (auto simp: replace_def)

section \<open>Counters\<close>

lemma dd_get_incr: "dd_get (dd_incr c k) j = (if j = k then dd_get c k + 1 else dd_get c j)"
  by (induction c) auto

lemma dd_get_touch: "dd_get (dd_touch c k) j = dd_get c j"
  by (induction c) auto

lemma dd_get_empty: "map (dd_get []) ks = replicate (length ks) 0"
  by (induction ks) simp_all

lemma sum_dd_incr:
  "sum_list (map (dd_get (dd_incr c k)) [0..<n]) = sum_list (map (dd_get c) [0..<n]) + (if k < n then 1 else 0)"
  by (induction n) (auto simp: dd_get_incr)

lemma dict_comp_fst: "fst (dict_comp c ks) = map (\<lambda>k. (str k, dd_get c k)) ks"
  by (induction ks arbitrary: c) (simp_all add: Let_def dd_get_touch)

lemma dict_comp_snd: "snd (dict_comp c ks) = foldl dd_touch c ks"
  by (induction ks arbitrary: c) (simp_all add: Let_def)

declare dict_comp.simps [simp del]

lemma keys_dict_comp: "map fst (fst (dict_comp c ks)) = map str ks"
  by (simp add: dict_comp_fst comp_def)

lemma values_dict_comp: "map snd (fst (dict_comp c ks)) = map (dd_get c) ks"
  by (simp add: dict_comp_fst comp_def)

lemma touch_zero:
  "list_all (\<lambda>p. snd p = 0) c \<Longrightarrow> list_all (\<lambda>p. snd p = 0) (dd_touch c k)"
  by (induction c) auto

lemma touch_all_zero:
  "list_all (\<lambda>p. snd p = 0) c \<Longrightarrow> list_all (\<lambda>p. snd p = 0) (foldl dd_touch c ks)"
  by (induction ks arbitrary: c) (simp_all add: touch_zero)

lemma dd_incr_present:
  "k \<in> fst ` set c \<Longrightarrow> distinct (map fst c) \<Longrightarrow>
   dd_incr c k = map (\<lambda>p. (fst p, snd p + (if fst p = k then 1 else 0))) c"
proof (induction c)
  case Nil
  then show ?case by simp
next
  case (Cons p c)
  obtain j v where p: "p = (j, v)" by (cases p)
  show ?case
  proof (cases "j = k")
    case True
    with Cons.prems(2) p have "\<forall>q \<in> set c. fst q \<noteq> k" by auto
    then have "map (\<lambda>p. (fst p, snd p + (if fst p = k then 1 else 0))) c = c"
      by (induction c) auto
    with True p show ?thesis by simp
  next
    case False
    with Cons p show ?thesis by auto
  qed
qed

lemma dd_incr_absent: "k \<notin> fst ` set c \<Longrightarrow> dd_incr c k = c @ [(k, 1)]"
  by (induction c) auto

lemma dd_touch_present: "k \<in> fst ` set c \<Longrightarrow> dd_touch c k = c"
  by (induction c) force+

lemma dd_touch_absent: "k \<notin> fst ` set c \<Longrightarrow> dd_touch c k = c @ [(k, 0)]"
  by (induction c) auto

lemma upt_24: "[0..<24] = [0, 1, 2, 3, 4, 5, 6, 7, 8, 9, 10, 11, 12, 13, 14, 15, 16, 17, 18, 19, 20, 21, 22, 23]"
  by (simp add: upt_rec)

lemma upt_7: "[0..<7] = [0, 1, 2, 3, 4, 5, 6]"
  by (simp add: upt_rec)

lemma str_hours: "map str [0..<24] = hour_keys"
  unfolding upt_24 hour_keys_def by (simp add: str.simps digit_char_def char_of_def bit_0)

lemma str_days: "map str [0..<7] = day_keys"
  unfolding upt_7 day_keys_def by (simp add: str.simps digit_char_def char_of_def bit_0)

section \<open>The counting statements\<close>

lemma count_events_Nil: "count_events cs [] = cs"
  by (simp add: count_events_def)

lemma hourly_count_events:
  "dd_get (hourly (count_events cs evs)) h = dd_get (hourly cs) h + length (filter (\<lambda>e. fst e = h) evs)"
  by (induction evs arbitrary: cs) (auto simp: count_events_def count_event_def dd_get_incr)

lemma daily_count_events:
  "dd_get (daily (count_events cs evs)) d = dd_get (daily cs) d + length (filter (\<lambda>e. snd e = d) evs)"
  by (induction evs arbitrary: cs) (auto simp: count_events_def count_event_def dd_get_incr)

lemma hourly_items: "hourly (count_events cs evs) = foldl dd_incr (hourly cs) (map fst evs)"
  by (induction evs arbitrary: cs) (simp_all add: count_events_def count_event_def)

lemma daily_items: "daily (count_events cs evs) = foldl dd_incr (daily cs) (map snd evs)"
  by (induction evs arbitrary: cs) (simp_all add: count_events_def count_event_def)

lemma hourly_value_run:
  "dd_get (hourly (count_events new_counts evs)) h = length (filter (\<lambda>e. fst e = h) evs)"
  by (simp add: hourly_count_events new_counts_def)

lemma daily_value_run:
  "dd_get (daily (count_events new_counts evs)) d = length (filter (\<lambda>e. snd e = d) evs)"
  by (simp add: daily_count_events new_counts_def)

lemma hourly_values:
  "map snd (fst (dict_comp (hourly (count_events new_counts evs)) ks)) = map (\<lambda>h. length (filter (\<lambda>e. fst e = h) evs)) ks"
  by (simp add: values_dict_comp hourly_value_run)

lemma daily_values:
  "map snd (fst (dict_comp (daily (count_events new_counts evs)) ks)) = map (\<lambda>d. length (filter (\<lambda>e. snd e = d) evs)) ks"
  by (simp add: values_dict_comp daily_value_run)

lemma sum_hourly_count_events:
  "list_all (\<lambda>e. fst e < n) evs \<Longrightarrow>
   sum_list (map (dd_get (hourly (count_events cs evs))) [0..<n]) = sum_list (map (dd_get (hourly cs)) [0..<n]) + length evs"
  by (induction evs arbitrary: cs) (auto simp: count_events_def count_event_def sum_dd_incr)

lemma sum_daily_count_events:
  "list_all (\<lambda>e. snd e < n) evs \<Longrightarrow>
   sum_list (map (dd_get (daily (count_events cs evs))) [0..<n]) = sum_list (map (dd_get (daily cs)) [0..<n]) + length evs"
  by (induction evs arbitrary: cs) (auto simp: count_events_def count_event_def sum_dd_incr)

subsection \<open>The heatmap\<close>

lemma well_shaped_update:
  "well_shaped hm \<Longrightarrow> well_shaped (hm[d := (hm ! d)[h := v]])"
proof (cases "d < length hm")
  case True
  assume "well_shaped hm"
  with True show ?thesis
    by (auto simp: well_shaped_def list_all_length nth_list_update)
next
  case False
  assume ws: "well_shaped hm"
  from False have "hm[d := (hm ! d)[h := v]] = hm" by (simp add: list_update_beyond)
  with ws show ?thesis by simp
qed

lemma well_shaped_count_events:
  "well_shaped (heatmap cs) \<Longrightarrow> well_shaped (heatmap (count_events cs evs))"
  by (induction evs arbitrary: cs) (auto simp: count_events_def count_event_def well_shaped_update)

lemma well_shaped_new: "well_shaped (heatmap new_counts)"
  by (simp add: new_counts_def well_shaped_def list_all_iff)

lemma total_new: "sum_list (map sum_list (heatmap new_counts)) = 0"
  by (simp add: new_counts_def)

lemma cell_count_event:
  "well_shaped (heatmap cs) \<Longrightarrow> d < 7 \<Longrightarrow> h < 24 \<Longrightarrow> d' < 7 \<Longrightarrow> h' < 24 \<Longrightarrow>
   heatmap (count_event h' d' cs) ! d ! h = heatmap cs ! d ! h + (if (h', d') = (h, d) then 1 else 0)"
  by (auto simp: count_event_def well_shaped_def list_all_length nth_list_update)

lemma cell_count_events:
  "well_shaped (heatmap cs) \<Longrightarrow> d < 7 \<Longrightarrow> h < 24 \<Longrightarrow> list_all (\<lambda>e. fst e < 24 \<and> snd e < 7) evs \<Longrightarrow>
   heatmap (count_events cs evs) ! d ! h = heatmap cs ! d ! h + length (filter (\<lambda>e. e = (h, d)) evs)"
proof (induction evs arbitrary: cs)
  case Nil
  then show ?case by (simp add: count_events_def)
next
  case (Cons e evs)
  have ws: "well_shaped (heatmap (count_event (fst e) (snd e) cs))"
    using Cons.prems(1) by (simp add: count_event_def well_shaped_update)
  have step: "heatmap (count_event (fst e) (snd e) cs) ! d ! h
      = heatmap cs ! d ! h + (if (fst e, snd e) = (h, d) then 1 else 0)"
    using Cons.prems by (intro cell_count_event) auto
  have "count_events cs (e # evs) = count_events (count_event (fst e) (snd e) cs) evs"
    by (simp add: count_events_def)
  then show ?case
    using Cons.IH [OF ws Cons.prems(2,3)] Cons.prems(4) step
    by (cases e) auto
qed

lemma sum_list_bump:
  "i < length xs \<Longrightarrow> sum_list (xs[i := xs ! i + 1]) = sum_list xs + (1::nat)"
  by (induction xs arbitrary: i) (auto split: nat.splits)

lemma total_update:
  fixes hm :: "nat list list"
  assumes "d < length hm" "h < length (hm ! d)"
  shows "sum_list (map sum_list (hm[d := (hm ! d)[h := hm ! d ! h + 1]])) = sum_list (map sum_list hm) + 1"
proof -
  have row: "sum_list ((hm ! d)[h := hm ! d ! h + 1]) = sum_list (hm ! d) + 1"
    using assms(2) by (rule sum_list_bump)
  have "sum_list (map sum_list (hm[d := (hm ! d)[h := hm ! d ! h + 1]]))
      = sum_list ((map sum_list hm)[d := map sum_list hm ! d + 1])"
    using assms(1) by (simp only: map_update row nth_map)
  also have "\<dots> = sum_list (map sum_list hm) + 1"
    using assms(1) by (intro sum_list_bump) simp
  finally show ?thesis .
qed

lemma total_count_events:
  "well_shaped (heatmap cs) \<Longrightarrow> list_all (\<lambda>e. fst e < 24 \<and> snd e < 7) evs \<Longrightarrow>
   sum_list (map sum_list (heatmap (count_events cs evs))) = sum_list (map sum_list (heatmap cs)) + length evs"
proof (induction evs arbitrary: cs)
  case Nil
  then show ?case by (simp add: count_events_def)
next
  case (Cons e evs)
  let ?cs = "count_event (fst e) (snd e) cs"
  have ws: "well_shaped (heatmap ?cs)"
    using Cons.prems(1) by (simp add: count_event_def well_shaped_update)
  have "sum_list (map sum_list (heatmap ?cs)) = sum_list (map sum_list (heatmap cs)) + 1"
  proof -
    have "snd e < length (heatmap cs)" "fst e < length (heatmap cs ! snd e)"
      using Cons.prems by (auto simp: well_shaped_def list_all_length)
    then show ?thesis
      by (simp add: count_event_def total_update del: One_nat_def)
  qed
  moreover have "count_events cs (e # evs) = count_events ?cs evs"
    by (simp add: count_events_def)
  ultimately show ?case
    using Cons.IH [OF ws] Cons.prems(2) by simp
qed

subsection \<open>A run that starts with empty counters\<close>

lemma in_range_fst: "list_all in_range evs \<Longrightarrow> list_all (\<lambda>e. fst e < 24) evs"
  by (auto simp: list_all_iff in_range_def)

lemma in_range_snd: "list_all in_range evs \<Longrightarrow> list_all (\<lambda>e. snd e < 7) evs"
  by (auto simp: list_all_iff in_range_def)

lemma in_range_both: "list_all in_range evs \<Longrightarrow> list_all (\<lambda>e. fst e < 24 \<and> snd e < 7) evs"
  by (auto simp: list_all_iff in_range_def)

text \<open>The three sums over the accumulators of a run that started empty.\<close>

lemma sum_hourly_run:
  assumes "list_all in_range evs"
  shows "sum_list (map snd (fst (dict_comp (hourly (count_events new_counts evs)) [0..<24]))) = length evs"
proof -
  have "sum_list (map (dd_get (hourly new_counts)) [0..<24]) = 0"
    by (simp add: new_counts_def)
  then show ?thesis
    using sum_hourly_count_events [OF in_range_fst [OF assms], of new_counts]
    by (simp add: values_dict_comp)
qed

lemma sum_daily_run:
  assumes "list_all in_range evs"
  shows "sum_list (map snd (fst (dict_comp (daily (count_events new_counts evs)) [0..<7]))) = length evs"
proof -
  have "sum_list (map (dd_get (daily new_counts)) [0..<7]) = 0"
    by (simp add: new_counts_def)
  then show ?thesis
    using sum_daily_count_events [OF in_range_snd [OF assms], of new_counts]
    by (simp add: values_dict_comp)
qed

lemma sum_heatmap_run:
  assumes "list_all in_range evs"
  shows "sum_list (map sum_list (heatmap (count_events new_counts evs))) = length evs"
  using total_count_events [OF well_shaped_new in_range_both [OF assms]] total_new by simp

lemma cell_run:
  assumes "list_all in_range evs" "d < 7" "h < 24"
  shows "heatmap (count_events new_counts evs) ! d ! h = length (filter (\<lambda>e. e = (h, d)) evs)"
proof -
  have "heatmap new_counts ! d ! h = 0"
    using assms(2,3) by (simp add: new_counts_def)
  then show ?thesis
    using cell_count_events [OF well_shaped_new assms(2,3) in_range_both [OF assms(1)]] by simp
qed

section \<open>Parsed timestamps\<close>

lemma new_datetime_hour: "new_datetime date time tz = Some dt \<Longrightarrow> hour dt < 24"
  by (auto simp: new_datetime_def split: prod.splits if_splits)

lemma fromisoformat_hour: "fromisoformat s = Some dt \<Longrightarrow> hour dt < 24"
  unfolding fromisoformat_def
  by (simp split: option.splits if_splits prod.splits) (blast dest: new_datetime_hour)+

lemma parse_tweet_hour: "parse_tweet s = Some dt \<Longrightarrow> hour dt < 24"
  by (auto simp: parse_tweet_def split: if_splits dest: fromisoformat_hour)

lemma new_datetime_valid:
  "new_datetime date time tz = Some dt \<Longrightarrow>
   hour dt < 24 \<and> minute dt < 60 \<and> second dt < 60 \<and> microsecond dt < 1000000 \<and> tzinfo dt = tz"
  by (auto simp: new_datetime_def split: prod.splits if_splits)

lemma fromisoformat_valid:
  "fromisoformat s = Some dt \<Longrightarrow>
   hour dt < 24 \<and> minute dt < 60 \<and> second dt < 60 \<and> microsecond dt < 1000000"
  unfolding fromisoformat_def
  by (simp split: option.splits if_splits prod.splits) (blast dest: new_datetime_valid)+

lemma parse_tweet_valid:
  "parse_tweet s = Some dt \<Longrightarrow>
   hour dt < 24 \<and> minute dt < 60 \<and> second dt < 60 \<and> microsecond dt < 1000000"
  by (auto simp: parse_tweet_def split: if_splits dest: fromisoformat_valid)

lemma weekday_less: "weekday dt < 7"
  by (simp add: weekday_def)

lemma parsed_hour: "dt \<in> set (parsed tws) \<Longrightarrow> hour dt < 24"
  by (auto simp: parsed_def map_filter_def dest: parse_tweet_hour)

lemma buckets_in_range: "list_all in_range (buckets (parsed tws))"
  by (auto simp: list_all_iff buckets_def in_range_def weekday_less parsed_hour)

lemma length_buckets: "length (buckets dts) = length dts"
  by (simp add: buckets_def)

lemma length_parsed_le: "length (parsed tws) \<le> length tws"
  by (simp add: parsed_def map_filter_def)

lemma filter_buckets_fst: "length (filter (\<lambda>e. fst e = h) (buckets dts)) = length (filter (\<lambda>dt. hour dt = h) dts)"
  by (induction dts) (simp_all add: buckets_def)

lemma filter_buckets_snd: "length (filter (\<lambda>e. snd e = d) (buckets dts)) = length (filter (\<lambda>dt. weekday dt = d) dts)"
  by (induction dts) (simp_all add: buckets_def)

lemma map_fst_buckets: "map fst (buckets dts) = map hour dts"
  by (simp add: buckets_def comp_def)

lemma map_snd_buckets: "map snd (buckets dts) = map weekday dts"
  by (simp add: buckets_def comp_def)

lemma tally_count_events: "tally cs tws = count_events cs (buckets (parsed tws))"
  by (induction tws arbitrary: cs)
     (simp_all add: count_events_def buckets_def parsed_def List.map_filter_simps split: option.splits)

lemma parse_all_None: "t \<in> set tws \<Longrightarrow> parse_tweet t = None \<Longrightarrow> parse_all tws = None"
  by (induction tws) (auto split: option.splits)

lemma parse_all_Some: "list_all (\<lambda>t. parse_tweet t \<noteq> None) tws \<Longrightarrow> parse_all tws = Some (parsed tws)"
  by (induction tws) (auto simp: parsed_def map_filter_def split: option.splits)

subsection \<open>Timestamps written in UTC\<close>

text \<open>
  A timestamp with offset zero is filed under its UTC hour and weekday: for it the fields
  as written are those of the instant in UTC.
\<close>

lemma utc_fields_zero_offset:
  assumes "hour dt < 24" "minute dt < 60" "second dt < 60" "microsecond dt < 1000000"
    and "tzinfo dt = Some 0"
  shows "utc_hour dt = hour dt" and "utc_weekday dt = weekday dt"
proof -
  let ?D = "int (ymd2ord (year dt) (month dt) (day dt))"
  let ?r = "(int (minute dt) * 60 + int (second dt)) * 1000000 + int (microsecond dt)"
  have r: "0 \<le> ?r" "?r < 3600000000" using assms(2,3,4) by auto
  have u: "utc_micros dt = 3600000000 * (?D * 24 + int (hour dt)) + ?r"
    using assms(5) by (simp add: utc_micros_def wall_micros_def algebra_simps)
  have "utc_micros dt div 3600000000 = ?D * 24 + int (hour dt)"
    using u r by (rule int_div_pos_eq)
  then show "utc_hour dt = hour dt"
    using assms(1) by (simp add: utc_hour_def)
  let ?q = "int (hour dt) * 3600000000 + ?r"
  have q: "0 \<le> ?q" "?q < 86400000000" using r assms(1) by auto
  have "utc_micros dt = 86400000000 * ?D + ?q"
    using u by (simp add: algebra_simps)
  then have "utc_micros dt div 86400000000 = ?D"
    using q by (rule int_div_pos_eq)
  then have "utc_weekday dt = nat (int ((ymd2ord (year dt) (month dt) (day dt) + 6) mod 7))"
    by (simp add: utc_weekday_def zmod_int)
  then show "utc_weekday dt = weekday dt"
    by (simp add: weekday_def)
qed

text \<open>
  A string whose only \<^verbatim>\<open>Z\<close> is its last character is parsed as the same string with
  \<^verbatim>\<open>+00:00\<close> in place of the \<^verbatim>\<open>Z\<close>.
\<close>

lemma zone_marker_as_offset:
  assumes "CHR ''Z'' \<notin> set p"
  shows "parse_tweet (p @ ''Z'') = parse_tweet (p @ ''+00:00'')"
proof -
  have "replace (p @ ''Z'') (CHR ''Z'') ''+00:00'' = p @ ''+00:00''"
    using replace_absent [OF assms, of "''+00:00''"] by (simp add: replace_def)
  moreover have "endswith (p @ ''Z'') ''Z''" by (simp add: endswith_def)
  moreover have "\<not> endswith (p @ ''+00:00'') ''Z''" by (simp add: endswith_def)
  ultimately show ?thesis by (simp add: parse_tweet_def)
qed

subsection \<open>The most recent timestamp\<close>

lemma max_from_aware:
  assumes "\<forall>x \<in> set (m # xs). tzinfo x \<noteq> None"
  shows "\<exists>r. max_from m xs = Some r \<and> r \<in> set (m # xs)
           \<and> (\<forall>x \<in> set (m # xs). utc_micros x \<le> utc_micros r)"
  using assms
proof (induction xs arbitrary: m)
  case Nil
  then show ?case by simp
next
  case (Cons x xs)
  let ?m = "if utc_micros m < utc_micros x then x else m"
  have gt: "dt_gt x m = Some (utc_micros m < utc_micros x)"
    using Cons.prems by (simp add: dt_gt_def)
  have "\<forall>y \<in> set (?m # xs). tzinfo y \<noteq> None" using Cons.prems by auto
  from Cons.IH [OF this] obtain r where r: "max_from ?m xs = Some r" "r \<in> set (?m # xs)"
    "\<forall>y \<in> set (?m # xs). utc_micros y \<le> utc_micros r" by blast
  have "max_from m (x # xs) = Some r" using gt r(1) by simp
  moreover have "r \<in> set (m # x # xs)" using r(2) by (auto split: if_splits)
  moreover have "\<forall>y \<in> set (m # x # xs). utc_micros y \<le> utc_micros r"
    using r(3) by (auto split: if_splits)
  ultimately show ?case by blast
qed

text \<open>One entry that does not parse leaves the most recent timestamp unset.\<close>

lemma unparseable_entry_no_last_time:
  "t \<in> set tws \<Longrightarrow> parse_tweet t = None \<Longrightarrow> find_last_tweet_time tws = None"
  by (simp add: find_last_tweet_time_def parse_all_None)

text \<open>
  When every tweet parses to a timestamp with an offset, the most recent timestamp is
  reported: the text of a parsed timestamp that no other one exceeds.
\<close>

lemma last_tweet_time_all_parse:
  assumes "tws \<noteq> []" "list_all (\<lambda>t. parse_tweet t \<noteq> None) tws"
    and "\<forall>dt \<in> set (parsed tws). tzinfo dt \<noteq> None"
  shows "\<exists>r \<in> set (parsed tws). find_last_tweet_time tws = Some (isoformat r)
           \<and> (\<forall>dt \<in> set (parsed tws). utc_micros dt \<le> utc_micros r)"
proof -
  have p: "parse_all tws = Some (parsed tws)" using assms(2) by (rule parse_all_Some)
  have "length (parsed tws) = length tws"
    using assms(2) by (induction tws) (auto simp: parsed_def map_filter_def)
  with assms(1) obtain m xs where mx: "parsed tws = m # xs" by (cases "parsed tws") auto
  with assms(3) have "\<forall>x \<in> set (m # xs). tzinfo x \<noteq> None" by simp
  from max_from_aware [OF this] obtain r where "max_from m xs = Some r" "r \<in> set (m # xs)"
    "\<forall>x \<in> set (m # xs). utc_micros x \<le> utc_micros r" by blast
  then show ?thesis
    using assms(1) p mx by (auto simp: find_last_tweet_time_def)
qed

section \<open>The random source\<close>

lemma choices_less: "weights \<noteq> [] \<Longrightarrow> fst (choices weights g) < length weights"
proof -
  assume "weights \<noteq> []"
  then have pos: "0 < length weights" by simp
  let ?x = "g 0 mod sum_list weights"
  have "length (takeWhile (\<lambda>c. c \<le> ?x) (take (length weights - 1) (accumulate 0 weights)))
      \<le> length (take (length weights - 1) (accumulate 0 weights))"
    by (rule length_takeWhile_le)
  also have "\<dots> \<le> length weights - 1" by simp
  finally have "bisect (accumulate 0 weights) ?x (length weights - 1) \<le> length weights - 1"
    by (simp add: bisect_def)
  with pos have "bisect (accumulate 0 weights) ?x (length weights - 1) < length weights"
    by linarith
  then show ?thesis
    by (simp add: choices_def Let_def)
qed

lemma randint_range: "a \<le> b \<Longrightarrow> a \<le> fst (randint a b g) \<and> fst (randint a b g) \<le> b"
proof -
  assume "a \<le> b"
  have "g 0 mod (b - a + 1) < b - a + 1" by (rule mod_less_divisor) simp
  then have "g 0 mod (b - a + 1) \<le> b - a" by simp
  with \<open>a \<le> b\<close> have "a + g 0 mod (b - a + 1) \<le> b" by linarith
  then show ?thesis by (simp add: randint_def)
qed

lemma demo_draws_in_range: "list_all in_range (demo_draws n g)"
proof (induction n arbitrary: g)
  case 0
  show ?case by simp
next
  case (Suc n)
  have "fst (choices hour_weights g) < 24"
    using choices_less [of hour_weights g] by (simp add: hour_weights_def)
  moreover have "fst (choices day_weights g') < 7" for g'
    using choices_less [of day_weights g'] by (simp add: day_weights_def)
  ultimately show ?case
    using Suc.IH by (simp add: Let_def in_range_def)
qed

lemma length_demo_draws: "length (demo_draws n g) = n"
  by (induction n arbitrary: g) (simp_all add: Let_def)

lemma demo_loop_count_events: "demo_loop n cs g = count_events cs (demo_draws n g)"
  by (induction n arbitrary: cs g) (simp_all add: Let_def count_events_def)

lemma demo_events_length: "length (demo_events g) = fst (randint 150 300 g)"
  by (simp add: demo_events_def length_demo_draws)

lemma demo_events_in_range: "list_all in_range (demo_events g)"
  by (simp add: demo_events_def demo_draws_in_range)

section \<open>Sorting\<close>

lemma set_sorted_reverse: "set (sorted_reverse xs) = set xs"
  by (simp add: sorted_reverse_def)

lemma no_peak_of_zeros:
  assumes "list_all (\<lambda>p. snd p = 0) c"
  shows "filter positive (take n (sorted_reverse c)) = []"
proof -
  have "\<forall>p \<in> set (take n (sorted_reverse c)). snd p = 0"
    using assms set_take_subset [of n "sorted_reverse c"]
    by (auto simp: list_all_iff set_sorted_reverse)
  then show ?thesis by (auto simp: filter_empty_conv positive_def)
qed

lemma sorted_reverse_stable: "sorted_reverse xs = sort_by_count_desc xs"
proof -
  let ?f = "\<lambda>p::nat \<times> nat. - int (snd p)"
  let ?zs = "sort_key snd (rev xs)"
  have "sort_key ?f xs = rev ?zs"
  proof (rule properties_for_sort_key)
    show "mset (rev ?zs) = mset xs" by simp
  next
    fix k :: "nat \<times> nat"
    have "filter (\<lambda>x. snd x = snd k) (rev ?zs) = rev (filter (\<lambda>x. snd x = snd k) ?zs)"
      by (simp add: rev_filter)
    also have "\<dots> = rev (filter (\<lambda>x. snd x = snd k) (rev xs))"
      by (simp only: sort_key_stable)
    also have "\<dots> = filter (\<lambda>x. snd x = snd k) xs"
      by (simp add: rev_filter)
    finally have "filter (\<lambda>x. snd x = snd k) (rev ?zs) = filter (\<lambda>x. snd x = snd k) xs" .
    moreover have "(\<lambda>x. ?f k = ?f x) = (\<lambda>x. snd x = snd k)" by auto
    ultimately show "filter (\<lambda>x. ?f k = ?f x) (rev ?zs) = filter (\<lambda>x. ?f k = ?f x) xs"
      by simp
  next
    have "sorted (map snd ?zs)" by (rule sorted_sort_key)
    then have "sorted_wrt (\<lambda>x y. snd x \<le> snd y) ?zs" by (simp add: sorted_map)
    then have "sorted_wrt (\<lambda>x y. ?f y \<le> ?f x) ?zs" by simp
    then have "sorted_wrt (\<lambda>x y. ?f x \<le> ?f y) (rev ?zs)" by (simp add: sorted_wrt_rev)
    then show "sorted (map ?f (rev ?zs))" by (simp only: sorted_map)
  qed
  then show ?thesis by (simp add: sorted_reverse_def sort_by_count_desc_def)
qed

lemma sort_by_count_desc_sorted:
  "sorted_wrt (\<lambda>p q. snd q \<le> snd p) (sort_by_count_desc xs)"
proof -
  have "sorted (map (\<lambda>p. - int (snd p)) (sort_by_count_desc xs))"
    unfolding sort_by_count_desc_def by (rule sorted_sort_key)
  then show ?thesis by (simp add: sorted_map)
qed

lemma filter_take_sorted:
  "sorted_wrt (\<lambda>p q. snd q \<le> snd p) xs \<Longrightarrow> filter positive (take n xs) = take n (filter positive xs)"
proof (induction xs arbitrary: n)
  case Nil
  then show ?case by simp
next
  case (Cons x xs)
  show ?case
  proof (cases n)
    case 0
    then show ?thesis by simp
  next
    case (Suc m)
    show ?thesis
    proof (cases "positive x")
      case True
      with Cons Suc show ?thesis by simp
    next
      case False
      then have "\<forall>q \<in> set xs. \<not> positive q"
        using Cons.prems by (auto simp: positive_def)
      then have "filter positive xs = []" "filter positive (take m xs) = []"
        by (auto simp: filter_empty_conv dest: in_set_takeD)
      with False Suc show ?thesis by simp
    qed
  qed
qed

lemma peaks_take_filter:
  "filter positive (take 3 (sorted_reverse xs)) = top3_positive xs"
  by (simp add: sorted_reverse_stable top3_positive_def filter_take_sorted sort_by_count_desc_sorted)

section \<open>The order of the items of a counter\<close>

lemma set_first_seen: "set (first_seen xs) = set xs"
proof (induction xs rule: first_seen.induct)
  case 1
  show ?case by simp
next
  case (2 x xs)
  then show ?case by auto
qed

lemma distinct_first_seen: "distinct (first_seen xs)"
proof (induction xs rule: first_seen.induct)
  case 1
  show ?case by simp
next
  case (2 x xs)
  then show ?case by (simp add: set_first_seen)
qed

lemma length_first_seen: "length (first_seen xs) = card (set xs)"
  using distinct_card [OF distinct_first_seen, of xs] by (simp add: set_first_seen)

lemma fold_incr:
  "distinct (map fst c) \<Longrightarrow>
   foldl dd_incr c ks
     = map (\<lambda>p. (fst p, snd p + count_list ks (fst p))) c
       @ map (\<lambda>k. (k, count_list ks k)) (first_seen (filter (\<lambda>k. k \<notin> fst ` set c) ks))"
proof (induction ks arbitrary: c)
  case Nil
  show ?case by simp
next
  case (Cons k ks)
  show ?case
  proof (cases "k \<in> fst ` set c")
    case True
    let ?c = "map (\<lambda>p. (fst p, snd p + (if fst p = k then 1 else 0))) c"
    have c': "dd_incr c k = ?c"
      using True Cons.prems by (rule dd_incr_present)
    have keys: "map fst ?c = map fst c" by (simp add: comp_def)
    then have keyset: "fst ` set ?c = fst ` set c"
      by (metis list.set_map)
    have d: "distinct (map fst ?c)" unfolding keys by (rule Cons.prems)
    have tail: "map (\<lambda>j. (j, count_list (k # ks) j)) zs = map (\<lambda>j. (j, count_list ks j)) zs"
      if "k \<notin> set zs" for zs
      using that by (induction zs) auto
    have "k \<notin> set (first_seen (filter (\<lambda>k. k \<notin> fst ` set c) ks))"
      using True by (simp add: set_first_seen)
    note t = tail [OF this]
    have "foldl dd_incr c (k # ks) = foldl dd_incr ?c ks" by (simp add: c')
    also have "\<dots> = map (\<lambda>p. (fst p, snd p + count_list ks (fst p))) ?c
       @ map (\<lambda>k. (k, count_list ks k)) (first_seen (filter (\<lambda>k. k \<notin> fst ` set c) ks))"
      using Cons.IH [OF d] by (simp only: keyset)
    also have "map (\<lambda>p. (fst p, snd p + count_list ks (fst p))) ?c
       = map (\<lambda>p. (fst p, snd p + count_list (k # ks) (fst p))) c"
      by (induction c) auto
    finally show ?thesis using True by (auto simp: set_first_seen)
  next
    case False
    let ?c = "c @ [(k, 1)]"
    let ?g = "\<lambda>p::nat \<times> nat. (fst p, snd p + count_list ks (fst p))"
    let ?g' = "\<lambda>p::nat \<times> nat. (fst p, snd p + count_list (k # ks) (fst p))"
    let ?h = "\<lambda>j. (j, count_list ks j)"
    let ?h' = "\<lambda>j. (j, count_list (k # ks) j)"
    let ?Z = "first_seen (filter (\<lambda>j. j \<noteq> k) (filter (\<lambda>j. j \<notin> fst ` set c) ks))"
    have c': "dd_incr c k = ?c" using False by (rule dd_incr_absent)
    have d: "distinct (map fst ?c)" using Cons.prems False by (simp add: image_iff)
    have f: "filter (\<lambda>j. j \<notin> fst ` set ?c) ks
        = filter (\<lambda>j. j \<noteq> k) (filter (\<lambda>j. j \<notin> fst ` set c) ks)"
      by (induction ks) auto
    have head: "map ?g c = map ?g' c"
      using False by (induction c) auto
    have tail: "map ?h' zs = map ?h zs" if "k \<notin> set zs" for zs
      using that by (induction zs) auto
    have "k \<notin> set ?Z" by (simp add: set_first_seen)
    note t = tail [OF this]
    have "foldl dd_incr c (k # ks) = foldl dd_incr ?c ks" by (simp add: c')
    also have "\<dots> = map ?g ?c @ map ?h ?Z"
      using Cons.IH [OF d] by (simp only: f)
    also have "map ?g ?c = map ?g' c @ [(k, count_list (k # ks) k)]"
      by (simp add: head)
    also have "map ?h ?Z = map ?h' ?Z" by (rule t [symmetric])
    finally have l: "foldl dd_incr c (k # ks) = (map ?g' c @ [(k, count_list (k # ks) k)]) @ map ?h' ?Z" .
    have "first_seen (filter (\<lambda>j. j \<notin> fst ` set c) (k # ks)) = k # ?Z"
      using False by simp
    then have "map ?h' (first_seen (filter (\<lambda>j. j \<notin> fst ` set c) (k # ks)))
        = (k, count_list (k # ks) k) # map ?h' ?Z"
      by (simp only: list.map)
    with l show ?thesis by (simp only: append_assoc append.simps)
  qed
qed

lemma fold_touch:
  "distinct ks \<Longrightarrow>
   foldl dd_touch c ks = c @ map (\<lambda>k. (k, 0)) (filter (\<lambda>k. k \<notin> fst ` set c) ks)"
proof (induction ks arbitrary: c)
  case Nil
  show ?case by simp
next
  case (Cons k ks)
  then have d: "distinct ks" and nk: "k \<notin> set ks" by simp_all
  show ?case
  proof (cases "k \<in> fst ` set c")
    case True
    then show ?thesis using Cons.IH [OF d, of c] by (simp add: dd_touch_present)
  next
    case False
    have f: "filter (\<lambda>j. j \<noteq> k \<and> j \<notin> fst ` set c) ks = filter (\<lambda>j. j \<notin> fst ` set c) ks"
      using nk by (induction ks) auto
    show ?thesis
      using False Cons.IH [OF d, of "c @ [(k, 0)]"] by (simp add: dd_touch_absent f)
  qed
qed

text \<open>
  The items of a counter after the counting loop over the keys \<open>ks\<close> and the reads of the
  keys below \<open>n\<close>: the keys counted, in the order of their first occurrence, then the
  other keys in ascending order.
\<close>

lemma items_in_seen_order:
  "foldl dd_touch (foldl dd_incr [] ks) [0..<n] = pairs_in_seen_order n ks"
proof -
  let ?c = "map (\<lambda>k. (k, count_list ks k)) (first_seen ks)"
  have c: "foldl dd_incr [] ks = ?c"
    using fold_incr [of "[]" ks] by simp
  have keys: "fst ` set ?c = set ks"
    by (simp add: image_comp comp_def set_first_seen)
  have z: "map (\<lambda>k. (k, 0)) zs = map (\<lambda>k. (k, count_list ks k)) zs" if "set zs \<inter> set ks = {}" for zs
    using that by (induction zs) auto
  have "foldl dd_touch ?c [0..<n] = ?c @ map (\<lambda>k. (k, 0)) (filter (\<lambda>k. k \<notin> set ks) [0..<n])"
    using fold_touch [of "[0..<n]" ?c] by (simp only: keys distinct_upt)
  also have "map (\<lambda>k. (k, 0)) (filter (\<lambda>k. k \<notin> set ks) [0..<n])
      = map (\<lambda>k. (k, count_list ks k)) (filter (\<lambda>k. k \<notin> set ks) [0..<n])"
    by (rule z) auto
  finally show ?thesis by (simp add: c pairs_in_seen_order_def)
qed

lemma positive_pairs:
  "filter positive (pairs_in_seen_order n ks) = map (\<lambda>k. (k, count_list ks k)) (first_seen ks)"
proof -
  have a: "filter positive (map (\<lambda>k. (k, count_list ks k)) zs) = map (\<lambda>k. (k, count_list ks k)) zs"
    if "set zs \<subseteq> set ks" for zs
    using that by (induction zs) (auto simp: positive_def count_list_0_iff)
  have b: "filter positive (map (\<lambda>k. (k, count_list ks k)) zs) = []"
    if "set zs \<inter> set ks = {}" for zs
    using that by (induction zs) (auto simp: positive_def)
  have "filter positive (map (\<lambda>k. (k, count_list ks k)) (filter (\<lambda>k. k \<notin> set ks) [0..<n])) = []"
    by (rule b) auto
  moreover have "filter positive (map (\<lambda>k. (k, count_list ks k)) (first_seen ks))
      = map (\<lambda>k. (k, count_list ks k)) (first_seen ks)"
    by (rule a) (simp add: set_first_seen)
  ultimately show ?thesis by (simp add: pairs_in_seen_order_def)
qed

lemma top3_positive_props:
  "length (top3_positive xs) \<le> 3"
  "list_all positive (top3_positive xs)"
  "sorted_wrt (\<lambda>p q. snd q \<le> snd p) (top3_positive xs)"
  "length (top3_positive xs) = min 3 (length (filter positive xs))"
proof -
  show "length (top3_positive xs) \<le> 3" by (simp add: top3_positive_def)
  show "list_all positive (top3_positive xs)"
    by (auto simp: top3_positive_def list_all_iff dest: in_set_takeD)
  have "sorted_wrt (\<lambda>p q. snd q \<le> snd p) (filter positive (sort_by_count_desc xs))"
    by (rule sorted_wrt_filter) (rule sort_by_count_desc_sorted)
  then show "sorted_wrt (\<lambda>p q. snd q \<le> snd p) (top3_positive xs)"
    unfolding top3_positive_def by (rule sorted_wrt_take)
  have "filter positive (sort_by_count_desc xs) = sort_by_count_desc (filter positive xs)"
    by (simp add: sort_by_count_desc_def filter_sort)
  then show "length (top3_positive xs) = min 3 (length (filter positive xs))"
    by (simp add: top3_positive_def sort_by_count_desc_def min.commute)
qed

section \<open>Summaries\<close>

lemma analyze_defined: "success sd \<Longrightarrow> tweets sd \<noteq> [] \<Longrightarrow> \<exists>r. analyze_scraped_data sd = Some r"
  by (simp add: analyze_scraped_data_def Let_def)

text \<open>The fields of a summary, in terms of the run over the parsed entries.\<close>

lemma analyze_fields:
  assumes "analyze_scraped_data sd = Some r"
  shows "success sd" and "tweets sd \<noteq> []"
    and "total_tweets_analyzed r = length (tweets sd)"
    and "hourly_activity r = fst (dict_comp (hourly (count_events new_counts (buckets (parsed (tweets sd))))) [0..<24])"
    and "daily_activity r = fst (dict_comp (daily (count_events new_counts (buckets (parsed (tweets sd))))) [0..<7])"
    and "heatmap_data r = heatmap (count_events new_counts (buckets (parsed (tweets sd))))"
    and "peak_hours r = filter positive (take 3 (sorted_reverse
           (snd (dict_comp (hourly (count_events new_counts (buckets (parsed (tweets sd))))) [0..<24]))))"
    and "peak_days r = filter positive (take 3 (sorted_reverse
           (snd (dict_comp (daily (count_events new_counts (buckets (parsed (tweets sd))))) [0..<7]))))"
    and "last_tweet_time r = find_last_tweet_time (tweets sd)"
  using assms
  by (auto simp: analyze_scraped_data_def Let_def tally_count_events split: if_splits)

text \<open>
  In a summary the hourly values, the daily values and the heatmap cells all add up to the
  number of tweets that parse; the reported total is the number of tweets scraped.
\<close>

lemma summary_sums:
  assumes "analyze_scraped_data sd = Some r"
  shows "sum_list (map snd (hourly_activity r)) = length (parsed (tweets sd))"
    and "sum_list (map snd (daily_activity r)) = length (parsed (tweets sd))"
    and "sum_list (map sum_list (heatmap_data r)) = length (parsed (tweets sd))"
    and "total_tweets_analyzed r = length (tweets sd)"
  using analyze_fields(3,4,5,6) [OF assms]
    sum_hourly_run [OF buckets_in_range, of "tweets sd"]
    sum_daily_run [OF buckets_in_range, of "tweets sd"]
    sum_heatmap_run [OF buckets_in_range, of "tweets sd"]
  by (simp_all add: length_buckets)

text \<open>When every tweet parses, the total agrees with the three sums.\<close>

lemma summary_sums_all_parse:
  assumes "analyze_scraped_data sd = Some r" "list_all (\<lambda>t. parse_tweet t \<noteq> None) (tweets sd)"
  shows "sum_list (map snd (hourly_activity r)) = total_tweets_analyzed r"
    and "sum_list (map snd (daily_activity r)) = total_tweets_analyzed r"
    and "sum_list (map sum_list (heatmap_data r)) = total_tweets_analyzed r"
proof -
  have "filter (\<lambda>t. parse_tweet t \<noteq> None) (tweets sd) = tweets sd"
    using assms(2) by (simp add: list_all_iff)
  then have "length (parsed (tweets sd)) = length (tweets sd)"
    by (simp add: parsed_def map_filter_def)
  with summary_sums [OF assms(1)]
  show "sum_list (map snd (hourly_activity r)) = total_tweets_analyzed r"
    and "sum_list (map snd (daily_activity r)) = total_tweets_analyzed r"
    and "sum_list (map sum_list (heatmap_data r)) = total_tweets_analyzed r"
    by simp_all
qed

lemma heatmap_cell:
  assumes "analyze_scraped_data sd = Some r" "d < 7" "h < 24"
  shows "heatmap_data r ! d ! h
    = length (filter (\<lambda>dt. weekday dt = d \<and> hour dt = h) (parsed (tweets sd)))"
proof -
  have "length (filter (\<lambda>e. e = (h, d)) (buckets dts))
      = length (filter (\<lambda>dt. weekday dt = d \<and> hour dt = h) dts)" for dts
    by (induction dts) (auto simp: buckets_def)
  then show ?thesis
    using analyze_fields(6) [OF assms(1)] cell_run [OF buckets_in_range assms(2,3), of "tweets sd"]
    by simp
qed

text \<open>The peak lists of a summary, in terms of the tweets that parse.\<close>

lemma peaks_of_summary:
  assumes "analyze_scraped_data sd = Some r"
  shows "peak_hours r = top3_positive (pairs_in_seen_order 24 (map hour (parsed (tweets sd))))"
    and "peak_days r = top3_positive (pairs_in_seen_order 7 (map weekday (parsed (tweets sd))))"
  using analyze_fields(7,8) [OF assms]
  by (simp_all add: dict_comp_snd hourly_items daily_items new_counts_def items_in_seen_order
      peaks_take_filter map_fst_buckets map_snd_buckets)






lemma demo_fields:
  "total_tweets_analyzed (generate_demo_data g u) = fst (randint 150 300 g)"
  "hourly_activity (generate_demo_data g u) = fst (dict_comp (hourly (count_events new_counts (demo_events g))) [0..<24])"
  "daily_activity (generate_demo_data g u) = fst (dict_comp (daily (count_events new_counts (demo_events g))) [0..<7])"
  "heatmap_data (generate_demo_data g u) = heatmap (count_events new_counts (demo_events g))"
  "peak_hours (generate_demo_data g u) = take 3 (sorted_reverse
           (snd (dict_comp (hourly (count_events new_counts (demo_events g))) [0..<24])))"
  "peak_days (generate_demo_data g u) = take 3 (sorted_reverse
           (snd (dict_comp (daily (count_events new_counts (demo_events g))) [0..<7])))"
  "is_demo (generate_demo_data g u)"
  "timezone_note (generate_demo_data g u) = ''Times shown in UTC (demo mode)''"
  "username (generate_demo_data g u) = u"
  by (simp_all add: generate_demo_data_def Let_def demo_loop_count_events demo_events_def)

text \<open>The three sums of a demo summary.\<close>

lemma demo_sums:
  "sum_list (map snd (hourly_activity (generate_demo_data g u))) = total_tweets_analyzed (generate_demo_data g u)"
  "sum_list (map snd (daily_activity (generate_demo_data g u))) = total_tweets_analyzed (generate_demo_data g u)"
  "sum_list (map sum_list (heatmap_data (generate_demo_data g u))) = total_tweets_analyzed (generate_demo_data g u)"
  using sum_hourly_run [OF demo_events_in_range, of g] sum_daily_run [OF demo_events_in_range, of g]
    sum_heatmap_run [OF demo_events_in_range, of g]
  by (simp_all add: demo_fields demo_events_length)

section \<open>The concrete inputs\<close>

lemmas parse_defs = parse_tweet_def endswith_def replace_def fromisoformat_def
  parse_isoformat_date_def parse_isoformat_time_def parse_hh_mm_ss_ff_def parse_tz_def
  parse_digits_def digit_val_def is_sign_def new_datetime_def days_in_month_def is_leap_def


lemmas calendar_defs = weekday_def ymd2ord_def days_before_year_def days_before_month_def is_leap_def

lemmas format_defs = isoformat_def format_offset_def zfill_def str.simps digit_char_def
  char_of_def bit_0

lemmas peak_defs = top3_positive_def sort_by_count_desc_def pairs_in_seen_order_def
  pairs_in_key_order_def positive_def

lemma parse_garbage: "parse_tweet ''garbage'' = None"
  by (simp add: parse_defs)

lemma parse_not_a_date: "parse_tweet ''not-a-date'' = None"
  by (simp add: parse_defs)

lemma parse_nine: "parse_tweet ''2024-01-01T09:00:00Z'' = Some nine"
  by (simp add: parse_defs nine_def)

lemma parse_half_past_nine: "parse_tweet ''2024-01-01T09:30:00Z'' = Some half_past_nine"
  by (simp add: parse_defs half_past_nine_def)

lemma parsed_mixed: "parsed (tweets mixed_input) = [nine, half_past_nine]"
  by (simp add: mixed_input_def scraped_def parsed_def map_filter_def parse_nine
      parse_half_past_nine parse_garbage)

lemma mixed_fields:
  "hour nine = 9" "hour half_past_nine = 9" "weekday nine = 0" "weekday half_past_nine = 0"
  by (simp_all add: nine_def half_past_nine_def weekday_def ymd2ord_def days_before_year_def
      days_before_month_def is_leap_def)

lemma mixed_defined: "\<exists>r. analyze_scraped_data mixed_input = Some r"
  by (rule analyze_defined) (simp_all add: mixed_input_def scraped_def)

lemma isoformat_nine: "isoformat nine = ''2024-01-01T09:00:00+00:00''"
  by (simp add: nine_def format_defs)

lemma isoformat_half_past_nine: "isoformat half_past_nine = ''2024-01-01T09:30:00+00:00''"
  by (simp add: half_past_nine_def format_defs)

lemma later: "dt_gt half_past_nine nine = Some True"
  by (simp add: dt_gt_def utc_micros_def wall_micros_def nine_def half_past_nine_def)

lemma parsed_offset: "parsed (tweets offset_input) = [offset_instant]"
  by (simp add: offset_input_def scraped_def parsed_def map_filter_def parse_defs offset_instant_def)

lemma offset_instant_fields:
  "weekday offset_instant = 0" "hour offset_instant = 2"
  "utc_weekday offset_instant = 6" "utc_hour offset_instant = 21"
  by (simp_all add: offset_instant_def calendar_defs utc_weekday_def utc_hour_def utc_micros_def
      wall_micros_def)

lemma offset_defined: "\<exists>r. analyze_scraped_data offset_input = Some r"
  by (rule analyze_defined) (simp_all add: offset_input_def scraped_def)

lemma tie_defined: "\<exists>r. analyze_scraped_data tie_input = Some r"
  by (rule analyze_defined) (simp_all add: tie_input_def scraped_def)

lemma peaks_defined: "\<exists>r. analyze_scraped_data peaks_input = Some r"
  by (rule analyze_defined) (simp_all add: peaks_input_def scraped_def)

lemma hours_tie: "map hour (parsed (tweets tie_input)) = [10, 9]"
  by (simp add: tie_input_def scraped_def parsed_def map_filter_def parse_defs)

lemma hours_peaks: "map hour (parsed (tweets peaks_input)) = [12, 11, 11, 9]"
  by (simp add: peaks_input_def scraped_def parsed_def map_filter_def parse_defs)

lemma weekdays_peaks: "map weekday (parsed (tweets peaks_input)) = [0, 0, 1, 2]"
  by (simp add: peaks_input_def scraped_def parsed_def map_filter_def parse_defs calendar_defs)

lemma seen_order_tie: "top3_positive (pairs_in_seen_order 24 [10, 9]) = [(10, 1), (9, 1)]"
  by (simp add: peak_defs upt_24)

lemma key_order_tie: "top3_positive (pairs_in_key_order 24 [10, 9]) = [(9, 1), (10, 1)]"
  by (simp add: peak_defs upt_24)

lemma seen_order_peaks: "top3_positive (pairs_in_seen_order 24 [12, 11, 11, 9]) = [(11, 2), (12, 1), (9, 1)]"
  by (simp add: peak_defs upt_24)

lemma seen_order_days: "top3_positive (pairs_in_seen_order 7 [0, 0, 1, 2]) = [(0, 2), (1, 1), (2, 1)]"
  by (simp add: peak_defs upt_7)

section \<open>The claims\<close>

subsection \<open>C1: the sums and the total\<close>

text \<open>
  C1. The claim: over a non-empty input the hourly values, the daily values, the heatmap
  cells and the reported total all add up to the same number. Evaluated at the input
  \<^verbatim>\<open>["2024-01-01T09:00:00Z", "garbage", "2024-01-01T09:30:00Z"]\<close>: the hourly values, the
  daily values and the heatmap cells each add up to 2, the number of tweets that parse, and
  the reported total is 3, the number of tweets scraped. (Lemma \<open>summary_sums\<close> has the
  general statement, \<open>summary_sums_all_parse\<close> the agreement when every tweet parses, and
  \<open>demo_sums\<close> the agreement in the demo generator.)
\<close>

theorem mixed_input_sums:
  "map_option (\<lambda>r. (sum_list (map snd (hourly_activity r)), sum_list (map snd (daily_activity r)),
                     sum_list (map sum_list (heatmap_data r)), total_tweets_analyzed r))
     (analyze_scraped_data mixed_input) = Some (2, 2, 2, 3)"
proof -
  obtain r where r: "analyze_scraped_data mixed_input = Some r"
    using mixed_defined by blast
  have "length (tweets mixed_input) = 3"
    by (simp add: mixed_input_def scraped_def)
  with summary_sums [OF r] show ?thesis
    by (simp add: r parsed_mixed)
qed

theorem mixed_input_sums_witness:
  "map_option (\<lambda>r. sum_list (map snd (hourly_activity r)) = total_tweets_analyzed r)
     (analyze_scraped_data mixed_input) = Some False"
  using mixed_input_sums by (cases "analyze_scraped_data mixed_input") auto

subsection \<open>C2: unparseable entries and the total\<close>

text \<open>
  C2. The claim: for the input \<^verbatim>\<open>["2024-01-01T09:00:00Z", "garbage", "2024-01-01T09:30:00Z"]\<close>
  the total is 2, the hourly value under "9" is 2 and every other hourly value is 0.
  Evaluated at this input: the hourly map is as claimed, so the valid entries are processed
  and the unparseable one is left out of the counts, and the reported total is 3.
\<close>

theorem mixed_input_total:
  "map_option total_tweets_analyzed (analyze_scraped_data mixed_input) = Some 3
   \<and> map_option hourly_activity (analyze_scraped_data mixed_input)
       = Some (zip hour_keys [0, 0, 0, 0, 0, 0, 0, 0, 0, 2, 0, 0, 0, 0, 0, 0, 0, 0, 0, 0, 0, 0, 0, 0])"
proof -
  obtain r where r: "analyze_scraped_data mixed_input = Some r"
    using mixed_defined by blast
  have t: "total_tweets_analyzed r = 3"
    using analyze_fields(3) [OF r] by (simp add: mixed_input_def scraped_def)
  have k: "map fst (hourly_activity r) = hour_keys"
    using analyze_fields(4) [OF r] by (simp only: keys_dict_comp str_hours)
  have "map snd (hourly_activity r)
      = map (\<lambda>h. length (filter (\<lambda>dt. hour dt = h) (parsed (tweets mixed_input)))) [0..<24]"
    using analyze_fields(4) [OF r] by (simp only: hourly_values filter_buckets_fst)
  also have "\<dots> = [0, 0, 0, 0, 0, 0, 0, 0, 0, 2, 0, 0, 0, 0, 0, 0, 0, 0, 0, 0, 0, 0, 0, 0]"
    by (simp add: parsed_mixed mixed_fields upt_24)
  finally have v: "map snd (hourly_activity r) = [0, 0, 0, 0, 0, 0, 0, 0, 0, 2, 0, 0, 0, 0, 0, 0, 0, 0, 0, 0, 0, 0, 0, 0]" .
  have "zip (map fst (hourly_activity r)) (map snd (hourly_activity r)) = hourly_activity r"
    by (rule zip_map_fst_snd)
  then have "hourly_activity r = zip hour_keys [0, 0, 0, 0, 0, 0, 0, 0, 0, 2, 0, 0, 0, 0, 0, 0, 0, 0, 0, 0, 0, 0, 0, 0]"
    by (simp only: k v)
  with t show ?thesis by (simp only: r option.map)
qed

theorem mixed_input_total_witness:
  "map_option total_tweets_analyzed (analyze_scraped_data mixed_input) \<noteq> Some 2"
  using mixed_input_total by (cases "analyze_scraped_data mixed_input") auto

subsection \<open>C3: no summary\<close>

text \<open>
  C3, as stated: a non-empty input of which no string parses gives no summary.
  The input \<^verbatim>\<open>["not-a-date"]\<close> has no parseable entry, and a summary is returned.
\<close>

theorem unparseable_summary_counterexample:
  "parsed (tweets unparseable_input) = [] \<and> analyze_scraped_data unparseable_input \<noteq> None"
proof -
  have "success unparseable_input" "tweets unparseable_input \<noteq> []"
    by (simp_all add: unparseable_input_def scraped_def)
  then have "analyze_scraped_data unparseable_input \<noteq> None"
    using analyze_defined by fastforce
  moreover have "parsed (tweets unparseable_input) = []"
    by (simp add: unparseable_input_def scraped_def parsed_def map_filter_def parse_not_a_date)
  ultimately show ?thesis by simp
qed

text \<open>
  C3, amended: the aggregator returns no summary exactly when the success flag is false or
  the list of tweets is empty, which it checks before it parses anything. A non-empty list
  of a successful scrape of which no string parses yields a summary: every hourly and daily
  value is 0, the heatmap is all zeros and both peak lists are empty.
\<close>

theorem no_summary_iff:
  "(analyze_scraped_data sd = None) = (\<not> success sd \<or> tweets sd = [])
   \<and> (success sd \<and> tweets sd \<noteq> [] \<and> parsed (tweets sd) = [] \<longrightarrow>
        (\<exists>r. analyze_scraped_data sd = Some r
           \<and> map snd (hourly_activity r) = replicate 24 0
           \<and> map snd (daily_activity r) = replicate 7 0
           \<and> heatmap_data r = replicate 7 (replicate 24 0)
           \<and> peak_hours r = [] \<and> peak_days r = []))"
proof -
  have iff: "(analyze_scraped_data sd = None) = (\<not> success sd \<or> tweets sd = [])"
    by (simp add: analyze_scraped_data_def Let_def)
  have zeros: "\<exists>r. analyze_scraped_data sd = Some r
           \<and> map snd (hourly_activity r) = replicate 24 0
           \<and> map snd (daily_activity r) = replicate 7 0
           \<and> heatmap_data r = replicate 7 (replicate 24 0)
           \<and> peak_hours r = [] \<and> peak_days r = []"
    if "success sd" "tweets sd \<noteq> []" "parsed (tweets sd) = []"
  proof -
    from that(1,2) obtain r where r: "analyze_scraped_data sd = Some r"
      using analyze_defined by blast
    have e: "count_events new_counts (buckets (parsed (tweets sd))) = new_counts"
      by (simp add: that(3) buckets_def count_events_Nil)
    have z: "list_all (\<lambda>p. snd p = 0) (hourly new_counts)" "list_all (\<lambda>p. snd p = 0) (daily new_counts)"
      by (simp_all add: new_counts_def)
    have "map snd (hourly_activity r) = map (dd_get []) [0..<24]"
      using analyze_fields(4) [OF r] unfolding e by (simp only: values_dict_comp new_counts_def counts.simps)
    then have "map snd (hourly_activity r) = replicate 24 0"
      by (simp add: dd_get_empty)
    moreover have "map snd (daily_activity r) = map (dd_get []) [0..<7]"
      using analyze_fields(5) [OF r] unfolding e by (simp only: values_dict_comp new_counts_def counts.simps)
    then have "map snd (daily_activity r) = replicate 7 0"
      by (simp add: dd_get_empty)
    moreover have "heatmap_data r = replicate 7 (replicate 24 0)"
      using analyze_fields(6) [OF r] unfolding e by (simp only: new_counts_def counts.simps)
    moreover have "peak_hours r = []"
      using analyze_fields(7) [OF r] unfolding e dict_comp_snd
      by (simp only: no_peak_of_zeros [OF touch_all_zero [OF z(1)]])
    moreover have "peak_days r = []"
      using analyze_fields(8) [OF r] unfolding e dict_comp_snd
      by (simp only: no_peak_of_zeros [OF touch_all_zero [OF z(2)]])
    ultimately show ?thesis using r by blast
  qed
  from iff zeros show ?thesis by blast
qed

theorem no_summary_iff_witness:
  "analyze_scraped_data (scraped []) = None
   \<and> success unparseable_input \<and> tweets unparseable_input \<noteq> []
   \<and> parsed (tweets unparseable_input) = []
   \<and> map_option peak_hours (analyze_scraped_data unparseable_input) = Some []
   \<and> map_option heatmap_data (analyze_scraped_data unparseable_input) = Some (replicate 7 (replicate 24 0))"
proof -
  have h: "success unparseable_input" "tweets unparseable_input \<noteq> []"
    "parsed (tweets unparseable_input) = []"
    by (simp_all add: unparseable_input_def scraped_def parsed_def map_filter_def parse_not_a_date)
  have "analyze_scraped_data (scraped []) = None"
    using no_summary_iff [of "scraped []"] by (simp add: scraped_def)
  moreover from no_summary_iff [of unparseable_input] h
  obtain r where "analyze_scraped_data unparseable_input = Some r"
    "peak_hours r = []" "heatmap_data r = replicate 7 (replicate 24 0)"
    by blast
  ultimately show ?thesis using h by simp
qed

subsection \<open>C4: the peak lists\<close>

text \<open>
  C4, as stated: ties are kept in hour order. For the tweets at 10:00 and at 09:30 the rule
  of the claim gives hour 9 before hour 10; the code returns hour 10 first, the hour it met
  first.
\<close>

theorem tie_order_counterexample:
  "map_option peak_hours (analyze_scraped_data tie_input) = Some [(10, 1), (9, 1)]
   \<and> top3_positive (pairs_in_key_order 24 (map hour (parsed (tweets tie_input)))) = [(9, 1), (10, 1)]"
proof -
  obtain r where r: "analyze_scraped_data tie_input = Some r"
    using tie_defined by blast
  from peaks_of_summary(1) [OF r] show ?thesis
    by (simp only: r option.map hours_tie seen_order_tie key_order_tie simp_thms)
qed

text \<open>
  C4, amended: the peak-hour list is the result of sorting the 24 (hour, count) pairs by
  count descending, with ties kept in the order in which the hours first occur among the
  parsed tweets (hours without a tweet come after them, in ascending order), then taking the
  first 3 entries whose count is strictly positive; the same rule gives the peak-day list from
  the 7 (day, count) pairs. Both lists have at most 3 entries, all with a positive count,
  in descending order of count, and exactly as many as there are nonzero buckets when these
  are fewer than 3.
\<close>

theorem peak_lists:
  "analyze_scraped_data sd = Some r \<longrightarrow>
     peak_hours r = top3_positive (pairs_in_seen_order 24 (map hour (parsed (tweets sd))))
     \<and> peak_days r = top3_positive (pairs_in_seen_order 7 (map weekday (parsed (tweets sd))))
     \<and> length (peak_hours r) \<le> 3 \<and> length (peak_days r) \<le> 3
     \<and> list_all positive (peak_hours r) \<and> list_all positive (peak_days r)
     \<and> sorted_wrt (\<lambda>p q. snd q \<le> snd p) (peak_hours r)
     \<and> sorted_wrt (\<lambda>p q. snd q \<le> snd p) (peak_days r)
     \<and> length (peak_hours r) = min 3 (card (hour ` set (parsed (tweets sd))))
     \<and> length (peak_days r) = min 3 (card (weekday ` set (parsed (tweets sd))))"
proof (intro impI conjI)
  assume r: "analyze_scraped_data sd = Some r"
  note p = peaks_of_summary [OF r]
  have n: "length (filter positive (pairs_in_seen_order n ks)) = card (set ks)" for n ks
    by (simp add: positive_pairs length_first_seen)
  show "peak_hours r = top3_positive (pairs_in_seen_order 24 (map hour (parsed (tweets sd))))"
    by (rule p(1))
  show "peak_days r = top3_positive (pairs_in_seen_order 7 (map weekday (parsed (tweets sd))))"
    by (rule p(2))
  show "length (peak_hours r) \<le> 3" "length (peak_days r) \<le> 3"
    unfolding p by (rule top3_positive_props(1))+
  show "list_all positive (peak_hours r)" "list_all positive (peak_days r)"
    unfolding p by (rule top3_positive_props(2))+
  show "sorted_wrt (\<lambda>p q. snd q \<le> snd p) (peak_hours r)"
    "sorted_wrt (\<lambda>p q. snd q \<le> snd p) (peak_days r)"
    unfolding p by (rule top3_positive_props(3))+
  show "length (peak_hours r) = min 3 (card (hour ` set (parsed (tweets sd))))"
    unfolding p(1) by (simp add: top3_positive_props(4) n)
  show "length (peak_days r) = min 3 (card (weekday ` set (parsed (tweets sd))))"
    unfolding p(2) by (simp add: top3_positive_props(4) n)
qed

theorem peak_lists_witness:
  "map_option peak_hours (analyze_scraped_data peaks_input) = Some [(11, 2), (12, 1), (9, 1)]
   \<and> map_option peak_days (analyze_scraped_data peaks_input) = Some [(0, 2), (1, 1), (2, 1)]
   \<and> map_option peak_hours (analyze_scraped_data tie_input) = Some [(10, 1), (9, 1)]"
proof -
  obtain r where r: "analyze_scraped_data peaks_input = Some r"
    using peaks_defined by blast
  obtain t where t: "analyze_scraped_data tie_input = Some t"
    using tie_defined by blast
  from peak_lists [of peaks_input r] r
  have "peak_hours r = top3_positive (pairs_in_seen_order 24 (map hour (parsed (tweets peaks_input))))"
    and "peak_days r = top3_positive (pairs_in_seen_order 7 (map weekday (parsed (tweets peaks_input))))"
    by blast+
  moreover from peak_lists [of tie_input t] t
  have "peak_hours t = top3_positive (pairs_in_seen_order 24 (map hour (parsed (tweets tie_input))))"
    by blast
  ultimately show ?thesis
    by (simp only: r t option.map hours_peaks weekdays_peaks hours_tie seen_order_peaks
        seen_order_days seen_order_tie simp_thms)
qed

subsection \<open>C5: the bucket of a timestamp\<close>

text \<open>
  C5. The claim: the cell incremented is that of the weekday and hour of the instant in UTC.
  Evaluated at the input \<^verbatim>\<open>["2024-01-01T02:00:00+05:00"]\<close>: the instant is Sunday 21:00 in
  UTC (weekday 6, hour 21); the cell incremented is that of Monday 02:00 (weekday 0, hour 2),
  the fields as written, and the cell of the UTC weekday and hour stays 0. (Lemma
  \<open>heatmap_cell\<close> has the general statement; by \<open>utc_fields_zero_offset\<close> the written fields
  are the UTC ones for a timestamp of offset zero, and by \<open>zone_marker_as_offset\<close> a string
  whose only \<^verbatim>\<open>Z\<close> is its last character is parsed as its form with \<^verbatim>\<open>+00:00\<close>.)
\<close>

theorem offset_input_bucket:
  "parsed (tweets offset_input) = [offset_instant]
   \<and> utc_weekday offset_instant = 6 \<and> utc_hour offset_instant = 21
   \<and> weekday offset_instant = 0 \<and> hour offset_instant = 2
   \<and> map_option (\<lambda>r. (heatmap_data r ! 6 ! 21, heatmap_data r ! 0 ! 2))
        (analyze_scraped_data offset_input) = Some (0, 1)"
proof -
  obtain r where r: "analyze_scraped_data offset_input = Some r"
    using offset_defined by blast
  have "heatmap_data r ! 6 ! 21 = 0"
    using heatmap_cell [OF r, of 6 21] by (simp add: parsed_offset offset_instant_fields)
  moreover have "heatmap_data r ! 0 ! 2 = 1"
    using heatmap_cell [OF r, of 0 2] by (simp add: parsed_offset offset_instant_fields)
  ultimately show ?thesis
    by (simp add: r parsed_offset offset_instant_fields)
qed

theorem offset_input_bucket_witness:
  "map_option (\<lambda>r. heatmap_data r ! utc_weekday offset_instant ! utc_hour offset_instant)
     (analyze_scraped_data offset_input) = Some 0
   \<and> map_option (\<lambda>r. heatmap_data r ! weekday offset_instant ! hour offset_instant)
     (analyze_scraped_data offset_input) = Some 1"
  using offset_input_bucket by (cases "analyze_scraped_data offset_input") auto

subsection \<open>C6: the most recent timestamp\<close>

text \<open>
  C6. The claim: the most recent timestamp reported is the maximum of the parsed instants,
  also when some entries fail to parse. Evaluated at the input
  \<^verbatim>\<open>["2024-01-01T09:00:00Z", "garbage", "2024-01-01T09:30:00Z"]\<close>: two entries parse, the
  later one being 09:30, which is what the function reports for the two of them alone; with
  the unparseable entry between them it reports nothing. (Lemma
  \<open>unparseable_entry_no_last_time\<close> has the general statement, \<open>last_tweet_time_all_parse\<close>
  the maximum when every entry parses.)
\<close>

theorem mixed_input_last_tweet_time:
  "parsed (tweets mixed_input) = [nine, half_past_nine]
   \<and> map isoformat [nine, half_past_nine]
       = [''2024-01-01T09:00:00+00:00'', ''2024-01-01T09:30:00+00:00'']
   \<and> find_last_tweet_time [''2024-01-01T09:00:00Z'', ''2024-01-01T09:30:00Z'']
       = Some ''2024-01-01T09:30:00+00:00''
   \<and> map_option last_tweet_time (analyze_scraped_data mixed_input) = Some None"
proof -
  obtain r where r: "analyze_scraped_data mixed_input = Some r"
    using mixed_defined by blast
  have "find_last_tweet_time (tweets mixed_input) = None"
    by (rule unparseable_entry_no_last_time [of "''garbage''"])
       (simp_all add: mixed_input_def scraped_def parse_garbage)
  then have "last_tweet_time r = None"
    using analyze_fields(9) [OF r] by simp
  moreover have "parsed (tweets mixed_input) = [nine, half_past_nine]"
    by (simp add: mixed_input_def scraped_def parsed_def map_filter_def parse_nine
        parse_half_past_nine parse_garbage)
  moreover have "find_last_tweet_time [''2024-01-01T09:00:00Z'', ''2024-01-01T09:30:00Z'']
       = Some ''2024-01-01T09:30:00+00:00''"
    by (simp add: find_last_tweet_time_def parse_nine parse_half_past_nine later
        isoformat_half_past_nine)
  ultimately show ?thesis
    by (simp add: r isoformat_nine isoformat_half_past_nine)
qed

theorem mixed_input_last_tweet_time_witness:
  "map_option last_tweet_time (analyze_scraped_data mixed_input)
     \<noteq> Some (find_last_tweet_time [''2024-01-01T09:00:00Z'', ''2024-01-01T09:30:00Z''])"
  using mixed_input_last_tweet_time by (cases "analyze_scraped_data mixed_input") auto

subsection \<open>C7: the errors of the fetch\<close>




subsection \<open>C8: the keys of the maps\<close>

text \<open>
  C8. In every summary, from scraped tweets or from the demo generator, the keys of the
  hourly map are exactly "0" to "23" and those of the daily map exactly "0" to "6", in this
  order, and the value under a key is the number of events filed under that bucket, hence 0
  for a bucket that received none.
\<close>

theorem all_keys_present:
  "(analyze_scraped_data sd = Some r \<longrightarrow>
      map fst (hourly_activity r) = hour_keys
      \<and> map fst (daily_activity r) = day_keys
      \<and> map snd (hourly_activity r)
          = map (\<lambda>h. length (filter (\<lambda>dt. hour dt = h) (parsed (tweets sd)))) [0..<24]
      \<and> map snd (daily_activity r)
          = map (\<lambda>d. length (filter (\<lambda>dt. weekday dt = d) (parsed (tweets sd)))) [0..<7])
   \<and> map fst (hourly_activity (generate_demo_data g u)) = hour_keys
   \<and> map fst (daily_activity (generate_demo_data g u)) = day_keys
   \<and> map snd (hourly_activity (generate_demo_data g u))
       = map (\<lambda>h. length (filter (\<lambda>e. fst e = h) (demo_events g))) [0..<24]
   \<and> map snd (daily_activity (generate_demo_data g u))
       = map (\<lambda>d. length (filter (\<lambda>e. snd e = d) (demo_events g))) [0..<7]"
proof -
  have real: "map fst (hourly_activity r) = hour_keys
      \<and> map fst (daily_activity r) = day_keys
      \<and> map snd (hourly_activity r)
          = map (\<lambda>h. length (filter (\<lambda>dt. hour dt = h) (parsed (tweets sd)))) [0..<24]
      \<and> map snd (daily_activity r)
          = map (\<lambda>d. length (filter (\<lambda>dt. weekday dt = d) (parsed (tweets sd)))) [0..<7]"
    if "analyze_scraped_data sd = Some r"
    using analyze_fields(4,5) [OF that]
    by (simp add: keys_dict_comp str_hours str_days hourly_values daily_values
        filter_buckets_fst filter_buckets_snd)
  have demo: "map fst (hourly_activity (generate_demo_data g u)) = hour_keys
   \<and> map fst (daily_activity (generate_demo_data g u)) = day_keys
   \<and> map snd (hourly_activity (generate_demo_data g u))
       = map (\<lambda>h. length (filter (\<lambda>e. fst e = h) (demo_events g))) [0..<24]
   \<and> map snd (daily_activity (generate_demo_data g u))
       = map (\<lambda>d. length (filter (\<lambda>e. snd e = d) (demo_events g))) [0..<7]"
    by (simp add: demo_fields keys_dict_comp str_hours str_days hourly_values daily_values)
  from real demo show ?thesis by blast
qed

theorem all_keys_present_witness:
  "map_option (\<lambda>r. map fst (hourly_activity r)) (analyze_scraped_data mixed_input) = Some hour_keys
   \<and> map_option (\<lambda>r. map snd (hourly_activity r)) (analyze_scraped_data mixed_input)
       = Some [0, 0, 0, 0, 0, 0, 0, 0, 0, 2, 0, 0, 0, 0, 0, 0, 0, 0, 0, 0, 0, 0, 0, 0]
   \<and> map_option (\<lambda>r. map fst (daily_activity r)) (analyze_scraped_data mixed_input) = Some day_keys"
proof -
  obtain r where r: "analyze_scraped_data mixed_input = Some r"
    using analyze_defined [of mixed_input] by (auto simp: mixed_input_def scraped_def)
  from all_keys_present [of mixed_input r] r show ?thesis
    by (simp add: parsed_mixed mixed_fields upt_24)
qed

subsection \<open>C9: the demo generator\<close>

text \<open>
  C9. Whatever the random source yields and whatever the identifier, the demo generator
  reports a total between 150 and 300; exactly that many (hour, day) pairs are drawn, each
  inside the 24 by 7 grid; the maps and the heatmap are the result of the counting statements
  run over these pairs, which is also what the aggregator's loop computes over the parsed
  tweets; the hourly values, the daily values and the heatmap cells each add up to the
  reported total; the result is flagged as demo data
  with the note "Times shown in UTC (demo mode)". The generator has no argument but the
  random source and the identifier: no scraper enters it.
\<close>

theorem demo_generator_total:
  "150 \<le> total_tweets_analyzed (generate_demo_data g u)
   \<and> total_tweets_analyzed (generate_demo_data g u) \<le> 300
   \<and> length (demo_events g) = total_tweets_analyzed (generate_demo_data g u)
   \<and> list_all in_range (demo_events g)
   \<and> hourly_activity (generate_demo_data g u)
       = fst (dict_comp (hourly (count_events new_counts (demo_events g))) [0..<24])
   \<and> daily_activity (generate_demo_data g u)
       = fst (dict_comp (daily (count_events new_counts (demo_events g))) [0..<7])
   \<and> heatmap_data (generate_demo_data g u) = heatmap (count_events new_counts (demo_events g))
   \<and> tally new_counts tws = count_events new_counts (buckets (parsed tws))
   \<and> sum_list (map snd (hourly_activity (generate_demo_data g u)))
       = total_tweets_analyzed (generate_demo_data g u)
   \<and> sum_list (map snd (daily_activity (generate_demo_data g u)))
       = total_tweets_analyzed (generate_demo_data g u)
   \<and> sum_list (map sum_list (heatmap_data (generate_demo_data g u)))
       = total_tweets_analyzed (generate_demo_data g u)
   \<and> is_demo (generate_demo_data g u)
   \<and> timezone_note (generate_demo_data g u) = ''Times shown in UTC (demo mode)''"
proof -
  have range: "150 \<le> fst (randint 150 300 g) \<and> fst (randint 150 300 g) \<le> 300"
    by (rule randint_range) simp
  have fields: "hourly_activity (generate_demo_data g u)
       = fst (dict_comp (hourly (count_events new_counts (demo_events g))) [0..<24])"
    "daily_activity (generate_demo_data g u)
       = fst (dict_comp (daily (count_events new_counts (demo_events g))) [0..<7])"
    "heatmap_data (generate_demo_data g u) = heatmap (count_events new_counts (demo_events g))"
    "is_demo (generate_demo_data g u)"
    "timezone_note (generate_demo_data g u) = ''Times shown in UTC (demo mode)''"
    by (simp_all add: demo_fields)
  have total: "total_tweets_analyzed (generate_demo_data g u) = fst (randint 150 300 g)"
    by (simp add: demo_fields)
  from range total fields demo_sums [of g u] demo_events_length [of g] demo_events_in_range [of g]
    tally_count_events [of new_counts tws]
  show ?thesis by (simp only: simp_thms)
qed

theorem demo_generator_total_witness:
  "total_tweets_analyzed (generate_demo_data (\<lambda>i. 7) ''x'') = 157
   \<and> length (demo_events (\<lambda>i. 7)) = 157
   \<and> sum_list (map sum_list (heatmap_data (generate_demo_data (\<lambda>i. 7) ''x''))) = 157
   \<and> is_demo (generate_demo_data (\<lambda>i. 7) ''x'')"
proof -
  have "total_tweets_analyzed (generate_demo_data (\<lambda>i. 7) ''x'') = 157"
    by (simp add: generate_demo_data_def randint_def Let_def)
  moreover from demo_generator_total [of "\<lambda>i. 7" "''x''" "[]"]
  have "length (demo_events (\<lambda>i. 7)) = total_tweets_analyzed (generate_demo_data (\<lambda>i. 7) ''x'')"
    and "sum_list (map sum_list (heatmap_data (generate_demo_data (\<lambda>i. 7) ''x'')))
          = total_tweets_analyzed (generate_demo_data (\<lambda>i. 7) ''x'')"
    and "is_demo (generate_demo_data (\<lambda>i. 7) ''x'')"
    by blast+
  ultimately show ?thesis by simp
qed

subsection \<open>C10: the user name\<close>



end
